theory Spec2Isabelle
  imports Main "HOL-Library.Multiset"
begin

section \<open>Identity and relationship primitives\<close>

text \<open>
  The model follows \<^verbatim>\<open>src/tf2_bot_detector/WorldState.cpp\<close>. A \<^verbatim>\<open>SteamID\<close> is an opaque
  64-bit identifier that the code only compares, so it is a natural number here. A
  \<^verbatim>\<open>time_point_t\<close> is a count of clock ticks since the clock's epoch and a
  \<^verbatim>\<open>duration_t\<close> a difference of two of them; \<^verbatim>\<open>time_point_t{}\<close> is the epoch, 0.
  Both are unbounded integers (signed overflow of the tick counter is undefined
  behaviour in the source and is not modelled).
\<close>

type_synonym SteamID = nat
type_synonym time_point_t = int
type_synonym duration_t = int

datatype error = runtime_error string

datatype TeamShareResult = SameTeams | OppositeTeams | Neither

text \<open>
  \<^verbatim>\<open>WorldState::GetTeamShareResult(team0, team1)\<close>, lines 193-207. The enum
  \<^verbatim>\<open>LobbyMemberTeam\<close> and the function \<^verbatim>\<open>OppositeTeam\<close> are declared in a header that
  is not part of the source at hand: the enum is the type parameter \<open>'team\<close> and
  \<^verbatim>\<open>OppositeTeam\<close> is the first argument. The \<^verbatim>\<open>throw\<close> is the \<open>Inl\<close> result.
\<close>

definition GetTeamShareResult ::
  "('team \<Rightarrow> 'team) \<Rightarrow> 'team option \<Rightarrow> 'team option \<Rightarrow> error + TeamShareResult" where
  "GetTeamShareResult OppositeTeam team0 team1 =
     (case team0 of
        None \<Rightarrow> Inr Neither
      | Some t0 \<Rightarrow>
          (case team1 of
             None \<Rightarrow> Inr Neither
           | Some t1 \<Rightarrow>
               if t0 = t1 then Inr SameTeams
               else if t0 = OppositeTeam t1 then Inr OppositeTeams
               else Inl (runtime_error ''Unexpected team value(s)'')))"

section \<open>The session model\<close>

text \<open>
  The enums below are declared in headers outside the source at hand; the
  enumerators the source names are kept, and every other enumerator is folded into
  one further constructor.
\<close>

datatype LobbyMemberTeam = Defenders | Invaders
datatype TFTeam = TeamUnknown | Spectator | Red | Blue
datatype PlayerStatusState = Active | Inactive nat
datatype TFClassType =
  Undefined | Scout | Sniper | Soldier | Demoman | Medic | Heavy | Pyro | Spy | Engie
datatype UserMessageType = VoteStart | VoteFailed | VotePass | OtherUserMessage nat
datatype LobbyChangeType = Created | Updated | Destroyed

record PlayerStatus =
  m_Name :: string
  m_SteamID :: SteamID
  m_ConnectionTime :: time_point_t
  m_UserID :: nat
  m_Ping :: nat
  m_State :: PlayerStatusState

record PlayerScores =
  m_Kills :: nat
  m_Deaths :: nat
  m_LocalKills :: nat
  m_LocalDeaths :: nat

record LobbyMember =
  m_Index :: nat
  m_SteamID :: SteamID
  m_Team :: LobbyMemberTeam
  m_Pending :: bool

record PlayerExtraData =
  m_Status :: PlayerStatus
  m_PlayerNameSafe :: string
  m_ClientIndex :: nat
  m_Team :: TFTeam
  m_Scores :: PlayerScores
  m_LastStatusUpdateTime :: time_point_t
  m_LastPingUpdateTime :: time_point_t
  m_LastStatusActiveBegin :: time_point_t
  m_TF2PlaytimeFetched :: bool

record Settings =
  m_LazyLoadAPIData :: bool
  LocalSteamID :: SteamID
  SteamAPIKey :: string
  HTTPClient :: bool

text \<open>
  The player table \<^verbatim>\<open>m_CurrentPlayerData\<close> is a map keyed by identifier that the
  source both looks up by key and iterates. It is an association list in the map's
  iteration order; a key occurs at most once because \<^verbatim>\<open>FindOrCreatePlayer\<close> is the
  only insertion and inserts only an absent key. Where the map puts a new entry in its
  iteration order is the container's choice; the model appends it, and no statement
  below about an insertion depends on the position. The pending collections of the two
  enrichment queues are sets of identifiers.
\<close>

record WorldState =
  m_Settings :: Settings
  m_CurrentPlayerData :: "(SteamID \<times> PlayerExtraData) list"
  m_CurrentLobbyMembers :: "LobbyMember list"
  m_PendingLobbyMembers :: "LobbyMember list"
  m_IsLocalPlayerInitialized :: bool
  m_IsVoteInProgress :: bool
  m_LastStatusUpdateTime :: time_point_t
  m_CurrentTimestamp :: time_point_t
  m_PlayerSummaryUpdates :: "SteamID set"
  m_PlayerBansUpdates :: "SteamID set"

text \<open>
  What the source takes from headers that are not at hand, as parameters of the model:
  the clock's ticks per second (the literal \<^verbatim>\<open>2s\<close> is twice that), the value of
  \<^verbatim>\<open>LobbyMember{}\<close> that \<^verbatim>\<open>resize\<close> fills new slots with, \<^verbatim>\<open>LobbyMember::IsValid\<close>, and
  \<^verbatim>\<open>CollapseNewlines\<close>.
\<close>

record Decls =
  ticks_per_second :: int
  LobbyMember_default :: LobbyMember
  IsValid :: "LobbyMember \<Rightarrow> bool"
  CollapseNewlines :: "string \<Rightarrow> string"

definition GetSteamID :: "PlayerExtraData \<Rightarrow> SteamID" where
  "GetSteamID p = PlayerStatus.m_SteamID (m_Status p)"

definition GetLastStatusUpdateTime :: "PlayerExtraData \<Rightarrow> time_point_t" where
  "GetLastStatusUpdateTime p = PlayerExtraData.m_LastStatusUpdateTime p"

subsection \<open>Queries\<close>

text \<open>\<^verbatim>\<open>WorldState::FindPlayer\<close>, lines 214-220: \<open>None\<close> is the null pointer.\<close>

definition FindPlayer :: "WorldState \<Rightarrow> SteamID \<Rightarrow> PlayerExtraData option" where
  "FindPlayer w sid = map_of (m_CurrentPlayerData w) sid"

text \<open>
  \<^verbatim>\<open>WorldState::FindSteamIDForName\<close>, lines 137-152. The loop carries \<^verbatim>\<open>retVal\<close> and
  \<^verbatim>\<open>lastUpdated\<close>; \<^verbatim>\<open>lastUpdated\<close> starts at the epoch.
\<close>

fun FindSteamIDForName_loop ::
  "string \<Rightarrow> (SteamID \<times> PlayerExtraData) list \<Rightarrow> SteamID option \<times> time_point_t
    \<Rightarrow> SteamID option \<times> time_point_t" where
  "FindSteamIDForName_loop playerName [] acc = acc"
| "FindSteamIDForName_loop playerName (d # ds) (retVal, lastUpdated) =
     (if m_Name (m_Status (snd d)) = playerName
         \<and> GetLastStatusUpdateTime (snd d) > lastUpdated
      then FindSteamIDForName_loop playerName ds
             (Some (GetSteamID (snd d)), GetLastStatusUpdateTime (snd d))
      else FindSteamIDForName_loop playerName ds (retVal, lastUpdated))"

definition FindSteamIDForName :: "WorldState \<Rightarrow> string \<Rightarrow> SteamID option" where
  "FindSteamIDForName w playerName =
     fst (FindSteamIDForName_loop playerName (m_CurrentPlayerData w) (None, 0))"

text \<open>
  \<^verbatim>\<open>WorldState::FindLobbyMemberTeam\<close>, lines 154-169: the confirmed slots are searched
  before the pending ones.
\<close>

definition FindLobbyMemberTeam :: "WorldState \<Rightarrow> SteamID \<Rightarrow> LobbyMemberTeam option" where
  "FindLobbyMemberTeam w sid =
     (case find (\<lambda>member. LobbyMember.m_SteamID member = sid) (m_CurrentLobbyMembers w) of
        Some member \<Rightarrow> Some (LobbyMember.m_Team member)
      | None \<Rightarrow>
          (case find (\<lambda>member. LobbyMember.m_SteamID member = sid) (m_PendingLobbyMembers w) of
             Some member \<Rightarrow> Some (LobbyMember.m_Team member)
           | None \<Rightarrow> None))"

subsection \<open>Creating and updating player records\<close>

text \<open>
  The constructor \<^verbatim>\<open>PlayerExtraData(world, id)\<close>, lines 652-663. It sets the identifier
  and leaves every other member as it is initialised by default: the name is the empty
  string and the time points are the epoch, as \<^verbatim>\<open>std::string\<close> and a time point
  construct themselves. The members of built-in type are declared in a header outside
  the source at hand; \<open>PlayerExtraData_init\<close> takes them to start as zero counters and
  indexes, a state that is not \<^verbatim>\<open>Active\<close> and no team, and no statement below depends
  on these. Unless \<^verbatim>\<open>m_LazyLoadAPIData\<close> is set, it calls
  \<^verbatim>\<open>GetPlayerSummary\<close> and \<^verbatim>\<open>GetPlayerBans\<close>, which find the fresh record's slots empty
  and queue the identifier (lines 699-716), and \<^verbatim>\<open>GetTF2Playtime\<close>, which starts the
  playtime request when an API key and an HTTP client are configured (lines 718-731).
\<close>

definition PlayerExtraData_init :: "SteamID \<Rightarrow> PlayerExtraData" where
  "PlayerExtraData_init sid =
     \<lparr> m_Status = \<lparr> m_Name = [], PlayerStatus.m_SteamID = sid, m_ConnectionTime = 0,
                     m_UserID = 0, m_Ping = 0, m_State = Inactive 0 \<rparr>,
       m_PlayerNameSafe = [],
       m_ClientIndex = 0,
       PlayerExtraData.m_Team = TeamUnknown,
       m_Scores = \<lparr> m_Kills = 0, m_Deaths = 0, m_LocalKills = 0, m_LocalDeaths = 0 \<rparr>,
       PlayerExtraData.m_LastStatusUpdateTime = 0,
       m_LastPingUpdateTime = 0,
       m_LastStatusActiveBegin = 0,
       m_TF2PlaytimeFetched = False \<rparr>"

text \<open>
  Modelled from the spec: \<^verbatim>\<open>BatchedAction::Queue\<close>, which lines 705 and 714 call, is
  defined in a header outside the source at hand. The spec describes the pending
  collection as a set of pending identifiers into which a request for unavailable data
  inserts the identifier.
\<close>

definition Queue :: "SteamID \<Rightarrow> SteamID set \<Rightarrow> SteamID set" where
  "Queue sid pending = insert sid pending"

definition PlayerExtraData_ctor :: "WorldState \<Rightarrow> SteamID \<Rightarrow> WorldState \<times> PlayerExtraData" where
  "PlayerExtraData_ctor w sid =
     (if m_LazyLoadAPIData (m_Settings w) then (w, PlayerExtraData_init sid)
      else
        (w\<lparr> m_PlayerSummaryUpdates := Queue sid (m_PlayerSummaryUpdates w),
             m_PlayerBansUpdates := Queue sid (m_PlayerBansUpdates w) \<rparr>,
         (PlayerExtraData_init sid)
           \<lparr> m_TF2PlaytimeFetched :=
               (SteamAPIKey (m_Settings w) \<noteq> [] \<and> HTTPClient (m_Settings w)) \<rparr>))"

text \<open>
  \<^verbatim>\<open>WorldState::FindOrCreatePlayer\<close>, lines 635-645, returns a reference into the table.
  The model returns the updated state and the record the reference denotes; a write
  through the reference is \<open>modify_player\<close>.
\<close>

definition FindOrCreatePlayer :: "WorldState \<Rightarrow> SteamID \<Rightarrow> WorldState \<times> PlayerExtraData" where
  "FindOrCreatePlayer w sid =
     (case map_of (m_CurrentPlayerData w) sid of
        Some found \<Rightarrow> (w, found)
      | None \<Rightarrow>
          (let (w', fresh) = PlayerExtraData_ctor w sid
           in (w'\<lparr> m_CurrentPlayerData := m_CurrentPlayerData w' @ [(sid, fresh)] \<rparr>, fresh)))"

definition modify_player ::
  "SteamID \<Rightarrow> (PlayerExtraData \<Rightarrow> PlayerExtraData) \<Rightarrow> WorldState \<Rightarrow> WorldState" where
  "modify_player sid f w =
     w\<lparr> m_CurrentPlayerData :=
          map (\<lambda>(k, p). if k = sid then (k, f p) else (k, p)) (m_CurrentPlayerData w) \<rparr>"

text \<open>\<^verbatim>\<open>PlayerExtraData::SetStatus\<close> and \<^verbatim>\<open>SetPing\<close>, lines 768-781.\<close>

definition SetStatus ::
  "Decls \<Rightarrow> PlayerStatus \<Rightarrow> time_point_t \<Rightarrow> PlayerExtraData \<Rightarrow> PlayerExtraData" where
  "SetStatus X status timestamp p =
     (let p1 = (if m_State (m_Status p) \<noteq> Active \<and> m_State status = Active
                then p\<lparr> m_LastStatusActiveBegin := timestamp \<rparr> else p)
      in p1\<lparr> m_Status := status,
              m_PlayerNameSafe := CollapseNewlines X (m_Name status),
              PlayerExtraData.m_LastStatusUpdateTime := timestamp,
              m_LastPingUpdateTime := timestamp \<rparr>)"

definition SetPing :: "nat \<Rightarrow> time_point_t \<Rightarrow> PlayerExtraData \<Rightarrow> PlayerExtraData" where
  "SetPing ping timestamp p =
     p\<lparr> m_Status := (m_Status p)\<lparr> m_Ping := ping \<rparr>, m_LastPingUpdateTime := timestamp \<rparr>"

section \<open>The reconciliation engine\<close>

text \<open>
  A parsed console line carries the fields its case of the switch reads. Lines of a
  type the switch has no case for are \<open>OtherLine\<close>.
\<close>

datatype IConsoleLine =
    LobbyHeaderLine nat nat
  | LobbyStatusFailedLine
  | LobbyChangedLine LobbyChangeType
  | HostNewGameLine
  | ConnectingLine
  | ClientReachedServerSpawnLine
  | ChatConsoleLine string string
  | ServerDroppedPlayerLine string string
  | ConfigExecLine string
  | LobbyMemberLine LobbyMember
  | PingLine string nat time_point_t
  | ServerStatusPlayerLine PlayerStatus time_point_t
  | ServerStatusShortPlayerLine string nat
  | KillNotificationLine string string
  | SVCUserMessageLine UserMessageType
  | OtherLine

text \<open>
  The calls of \<^verbatim>\<open>InvokeEventListener\<close>, in the order made; a player argument is
  given by its identifier. Log output is not modelled.
\<close>

datatype WorldEvent =
    OnLocalPlayerSpawned TFClassType
  | OnLocalPlayerInitialized bool
  | OnChatMsg SteamID string
  | OnPlayerDroppedFromServer SteamID string
  | OnPlayerStatusUpdate SteamID

definition starts_with :: "string \<Rightarrow> string \<Rightarrow> bool" where
  "starts_with s p = (take (length p) s = p)"

text \<open>\<^verbatim>\<open>WorldState::OnConfigExecLineParsed\<close>, lines 320-363.\<close>

definition OnConfigExecLineParsed :: "WorldState \<Rightarrow> string \<Rightarrow> WorldState \<times> WorldEvent list" where
  "OnConfigExecLineParsed w cfgName =
     (if cfgName \<in> set [''scout.cfg'', ''sniper.cfg'', ''soldier.cfg'', ''demoman.cfg'',
                          ''medic.cfg'', ''heavyweapons.cfg'', ''pyro.cfg'', ''spy.cfg'',
                          ''engineer.cfg'']
      then
        (let cl = (if starts_with cfgName ''scout'' then Scout
                   else if starts_with cfgName ''sniper'' then Sniper
                   else if starts_with cfgName ''soldier'' then Soldier
                   else if starts_with cfgName ''demoman'' then Demoman
                   else if starts_with cfgName ''medic'' then Medic
                   else if starts_with cfgName ''heavyweapons'' then Heavy
                   else if starts_with cfgName ''pyro'' then Pyro
                   else if starts_with cfgName ''spy'' then Spy
                   else if starts_with cfgName ''engineer'' then Engie
                   else Undefined)
         in if \<not> m_IsLocalPlayerInitialized w
            then (w\<lparr> m_IsLocalPlayerInitialized := True \<rparr>,
                  [OnLocalPlayerSpawned cl, OnLocalPlayerInitialized True])
            else (w, [OnLocalPlayerSpawned cl]))
      else (w, []))"

text \<open>\<^verbatim>\<open>std::vector::resize\<close> and the lambda \<^verbatim>\<open>ClearLobbyState\<close>, lines 369-374.\<close>

definition resize :: "'a list \<Rightarrow> nat \<Rightarrow> 'a \<Rightarrow> 'a list" where
  "resize xs n d = take n xs @ replicate (n - length xs) d"

definition ClearLobbyState :: "WorldState \<Rightarrow> WorldState" where
  "ClearLobbyState w =
     w\<lparr> m_CurrentLobbyMembers := [], m_PendingLobbyMembers := [], m_CurrentPlayerData := [] \<rparr>"

text \<open>
  \<^verbatim>\<open>WorldState::OnConsoleLineParsed\<close>, lines 365-633, one equation per case of the
  switch. The result is the new state and the events sent to the world-event
  listeners.
\<close>

definition OnPlayerStatus ::
  "Decls \<Rightarrow> WorldState \<Rightarrow> PlayerStatus \<Rightarrow> time_point_t \<Rightarrow> WorldState \<times> WorldEvent list" where
  "OnPlayerStatus X w statusLine timestamp =
     (let (w1, playerData) = FindOrCreatePlayer w (PlayerStatus.m_SteamID statusLine);
          delta = m_ConnectionTime (m_Status playerData) - m_ConnectionTime statusLine;
          newStatus =
            (if delta < 2 * ticks_per_second X \<and> delta > - (2 * ticks_per_second X)
             then statusLine\<lparr> m_ConnectionTime := m_ConnectionTime (m_Status playerData) \<rparr>
             else statusLine);
          w2 = modify_player (PlayerStatus.m_SteamID newStatus)
                 (SetStatus X newStatus timestamp) w1;
          w3 = w2\<lparr> WorldState.m_LastStatusUpdateTime :=
                     max (WorldState.m_LastStatusUpdateTime w2) timestamp \<rparr>
      in (w3, [OnPlayerStatusUpdate (PlayerStatus.m_SteamID newStatus)]))"

definition OnLobbyMember :: "WorldState \<Rightarrow> LobbyMember \<Rightarrow> WorldState" where
  "OnLobbyMember w member =
     (let w1 =
            (if m_Pending member
             then (if m_Index member < length (m_PendingLobbyMembers w)
                   then w\<lparr> m_PendingLobbyMembers :=
                            (m_PendingLobbyMembers w)[m_Index member := member] \<rparr>
                   else w)
             else (if m_Index member < length (m_CurrentLobbyMembers w)
                   then w\<lparr> m_CurrentLobbyMembers :=
                            (m_CurrentLobbyMembers w)[m_Index member := member] \<rparr>
                   else w));
          tfTeam = (if LobbyMember.m_Team member = Defenders then Red else Blue);
          (w2, player) = FindOrCreatePlayer w1 (LobbyMember.m_SteamID member)
      in modify_player (LobbyMember.m_SteamID member)
           (\<lambda>p. p\<lparr> PlayerExtraData.m_Team := tfTeam \<rparr>) w2)"

definition OnKillNotification :: "WorldState \<Rightarrow> string \<Rightarrow> string \<Rightarrow> WorldState" where
  "OnKillNotification w attackerName victimName =
     (let localSteamID = LocalSteamID (m_Settings w);
          attackerSteamID = FindSteamIDForName w attackerName;
          victimSteamID = FindSteamIDForName w victimName;
          w1 = (case attackerSteamID of
                  None \<Rightarrow> w
                | Some a \<Rightarrow>
                    modify_player a
                      (\<lambda>p. p\<lparr> m_Scores := (m_Scores p)
                           \<lparr> m_Kills := m_Kills (m_Scores p) + 1,
                             m_LocalKills :=
                               (if victimSteamID = Some localSteamID
                                then m_LocalKills (m_Scores p) + 1
                                else m_LocalKills (m_Scores p)) \<rparr> \<rparr>)
                      (fst (FindOrCreatePlayer w a)))
      in (case victimSteamID of
            None \<Rightarrow> w1
          | Some v \<Rightarrow>
              modify_player v
                (\<lambda>p. p\<lparr> m_Scores := (m_Scores p)
                     \<lparr> m_Deaths := m_Deaths (m_Scores p) + 1,
                       m_LocalDeaths :=
                         (if attackerSteamID = Some localSteamID
                          then m_LocalDeaths (m_Scores p) + 1
                          else m_LocalDeaths (m_Scores p)) \<rparr> \<rparr>)
                (fst (FindOrCreatePlayer w1 v))))"

definition resolve_player :: "WorldState \<Rightarrow> string \<Rightarrow> SteamID option" where
  "resolve_player w playerName =
     (case FindSteamIDForName w playerName of
        None \<Rightarrow> None
      | Some sid \<Rightarrow> (case FindPlayer w sid of None \<Rightarrow> None | Some player \<Rightarrow> Some sid))"

fun OnConsoleLineParsed ::
  "Decls \<Rightarrow> WorldState \<Rightarrow> IConsoleLine \<Rightarrow> WorldState \<times> WorldEvent list" where
  "OnConsoleLineParsed X w (LobbyHeaderLine memberCount pendingCount) =
     (w\<lparr> m_CurrentLobbyMembers :=
           resize (m_CurrentLobbyMembers w) memberCount (LobbyMember_default X),
         m_PendingLobbyMembers :=
           resize (m_PendingLobbyMembers w) pendingCount (LobbyMember_default X) \<rparr>, [])"
| "OnConsoleLineParsed X w LobbyStatusFailedLine =
     (if m_CurrentLobbyMembers w \<noteq> [] \<or> m_PendingLobbyMembers w \<noteq> []
      then (w\<lparr> m_CurrentLobbyMembers := [], m_PendingLobbyMembers := [],
                m_CurrentPlayerData := [] \<rparr>, [])
      else (w, []))"
| "OnConsoleLineParsed X w (LobbyChangedLine changeType) =
     (let w1 = (if changeType = Created then ClearLobbyState w else w)
      in if changeType = Created \<or> changeType = Updated
         then (w1\<lparr> m_CurrentPlayerData :=
                    map (\<lambda>(k, p). (k, p\<lparr> m_ClientIndex := 0 \<rparr>)) (m_CurrentPlayerData w1) \<rparr>, [])
         else (w1, []))"
| "OnConsoleLineParsed X w HostNewGameLine =
     (if m_IsLocalPlayerInitialized w
      then (w\<lparr> m_IsLocalPlayerInitialized := False, m_IsVoteInProgress := False \<rparr>,
            [OnLocalPlayerInitialized False])
      else (w\<lparr> m_IsVoteInProgress := False \<rparr>, []))"
| "OnConsoleLineParsed X w ConnectingLine =
     (if m_IsLocalPlayerInitialized w
      then (w\<lparr> m_IsLocalPlayerInitialized := False, m_IsVoteInProgress := False \<rparr>,
            [OnLocalPlayerInitialized False])
      else (w\<lparr> m_IsVoteInProgress := False \<rparr>, []))"
| "OnConsoleLineParsed X w ClientReachedServerSpawnLine =
     (if m_IsLocalPlayerInitialized w
      then (w\<lparr> m_IsLocalPlayerInitialized := False, m_IsVoteInProgress := False \<rparr>,
            [OnLocalPlayerInitialized False])
      else (w\<lparr> m_IsVoteInProgress := False \<rparr>, []))"
| "OnConsoleLineParsed X w (ChatConsoleLine playerName message) =
     (case resolve_player w playerName of
        Some sid \<Rightarrow> (w, [OnChatMsg sid message])
      | None \<Rightarrow> (w, []))"
| "OnConsoleLineParsed X w (ServerDroppedPlayerLine playerName reason) =
     (case resolve_player w playerName of
        Some sid \<Rightarrow> (w, [OnPlayerDroppedFromServer sid reason])
      | None \<Rightarrow> (w, []))"
| "OnConsoleLineParsed X w (ConfigExecLine cfgName) = OnConfigExecLineParsed w cfgName"
| "OnConsoleLineParsed X w (LobbyMemberLine member) = (OnLobbyMember w member, [])"
| "OnConsoleLineParsed X w (PingLine playerName ping timestamp) =
     (case FindSteamIDForName w playerName of
        Some found \<Rightarrow>
          (modify_player found (SetPing ping timestamp) (fst (FindOrCreatePlayer w found)), [])
      | None \<Rightarrow> (w, []))"
| "OnConsoleLineParsed X w (ServerStatusPlayerLine status timestamp) =
     OnPlayerStatus X w status timestamp"
| "OnConsoleLineParsed X w (ServerStatusShortPlayerLine playerName clientIndex) =
     (case FindSteamIDForName w playerName of
        Some steamID \<Rightarrow>
          (modify_player steamID (\<lambda>p. p\<lparr> m_ClientIndex := clientIndex \<rparr>)
             (fst (FindOrCreatePlayer w steamID)), [])
      | None \<Rightarrow> (w, []))"
| "OnConsoleLineParsed X w (KillNotificationLine attackerName victimName) =
     (OnKillNotification w attackerName victimName, [])"
| "OnConsoleLineParsed X w (SVCUserMessageLine VoteStart) = (w\<lparr> m_IsVoteInProgress := True \<rparr>, [])"
| "OnConsoleLineParsed X w (SVCUserMessageLine VoteFailed) = (w\<lparr> m_IsVoteInProgress := False \<rparr>, [])"
| "OnConsoleLineParsed X w (SVCUserMessageLine VotePass) = (w\<lparr> m_IsVoteInProgress := False \<rparr>, [])"
| "OnConsoleLineParsed X w (SVCUserMessageLine (OtherUserMessage n)) = (w, [])"
| "OnConsoleLineParsed X w OtherLine = (w, [])"

text \<open>A run of parsed lines, each applied to the state the previous one left.\<close>

fun OnConsoleLines :: "Decls \<Rightarrow> WorldState \<Rightarrow> IConsoleLine list \<Rightarrow> WorldState" where
  "OnConsoleLines X w [] = w"
| "OnConsoleLines X w (l # ls) = OnConsoleLines X (fst (OnConsoleLineParsed X w l)) ls"

section \<open>Lobby members and recent players\<close>

text \<open>
  \<^verbatim>\<open>WorldState::GetLobbyMembers\<close>, lines 227-269, is a generator. Its model is what a
  consumer that iterates to the end receives: the players yielded, in order, and the
  exception that ended the iteration, if one did. \<open>GetPlayer\<close> is the lambda of lines
  229-244 (its two \<^verbatim>\<open>assert\<close>s are compiled out of a release build and not modelled). A
  yielded reference into the player table is given by the record it denotes.
\<close>

definition GetPlayer :: "WorldState \<Rightarrow> LobbyMember \<Rightarrow> error + PlayerExtraData" where
  "GetPlayer w member =
     (case map_of (m_CurrentPlayerData w) (LobbyMember.m_SteamID member) of
        Some found \<Rightarrow> Inr found
      | None \<Rightarrow> Inl (runtime_error ''Missing player for lobby member!''))"

text \<open>
  One \<^verbatim>\<open>for\<close> loop of the generator over a slot sequence; \<open>skip\<close> is the test that sends
  a valid member to \<^verbatim>\<open>continue\<close> (none in the first loop, the \<^verbatim>\<open>std::any_of\<close> over the
  confirmed slots in the second).
\<close>

fun GetLobbyMembers_loop ::
  "Decls \<Rightarrow> WorldState \<Rightarrow> (LobbyMember \<Rightarrow> bool) \<Rightarrow> LobbyMember list
    \<Rightarrow> PlayerExtraData list \<times> error option" where
  "GetLobbyMembers_loop X w skip [] = ([], None)"
| "GetLobbyMembers_loop X w skip (member # rest) =
     (if \<not> IsValid X member then GetLobbyMembers_loop X w skip rest
      else if skip member then GetLobbyMembers_loop X w skip rest
      else (case GetPlayer w member of
              Inl e \<Rightarrow> ([], Some e)
            | Inr found \<Rightarrow>
                (let (ys, r) = GetLobbyMembers_loop X w skip rest in (found # ys, r))))"

definition GetLobbyMembers :: "Decls \<Rightarrow> WorldState \<Rightarrow> PlayerExtraData list \<times> error option" where
  "GetLobbyMembers X w =
     (case GetLobbyMembers_loop X w (\<lambda>member. False) (m_CurrentLobbyMembers w) of
        (ys, Some e) \<Rightarrow> (ys, Some e)
      | (ys, None) \<Rightarrow>
          (let (zs, r) =
             GetLobbyMembers_loop X w
               (\<lambda>member. list_ex (\<lambda>member2. LobbyMember.m_SteamID member
                                              = LobbyMember.m_SteamID member2)
                                   (m_CurrentLobbyMembers w))
               (m_PendingLobbyMembers w)
           in (ys @ zs, r)))"

text \<open>
  \<^verbatim>\<open>GetRecentPlayersImpl\<close>, lines 289-308. The source sorts with \<^verbatim>\<open>std::sort\<close>, whose
  implementation belongs to the C++ library: it is the parameter \<open>std_sort\<close>, and
  \<open>std_sort_post\<close> is what the C++ standard promises of its result for a comparison
  \<open>cmp\<close> (a permutation of the input in which no element is \<open>cmp\<close>-before an earlier
  one). The standard promises nothing about the order of equivalent elements.
\<close>

definition std_sort_post :: "('a \<Rightarrow> 'a \<Rightarrow> bool) \<Rightarrow> 'a list \<Rightarrow> 'a list \<Rightarrow> bool" where
  "std_sort_post cmp xs ys \<longleftrightarrow> mset ys = mset xs \<and> sorted_wrt (\<lambda>a b. \<not> cmp b a) ys"

definition recent_first :: "PlayerExtraData \<Rightarrow> PlayerExtraData \<Rightarrow> bool" where
  "recent_first a b \<longleftrightarrow> GetLastStatusUpdateTime b < GetLastStatusUpdateTime a"

definition GetRecentPlayersImpl ::
  "((PlayerExtraData \<Rightarrow> PlayerExtraData \<Rightarrow> bool) \<Rightarrow> PlayerExtraData list \<Rightarrow> PlayerExtraData list)
    \<Rightarrow> (SteamID \<times> PlayerExtraData) list \<Rightarrow> nat \<Rightarrow> PlayerExtraData list" where
  "GetRecentPlayersImpl std_sort table recentPlayerCount =
     (let retVal = map snd table;
          retVal = std_sort recent_first retVal
      in if length retVal > recentPlayerCount then take recentPlayerCount retVal else retVal)"

section \<open>The enrichment queue\<close>

text \<open>
  \<^verbatim>\<open>Take100\<close>, lines 796-808, reads its collection only through a range-\<^verbatim>\<open>for\<close>: the
  argument is the sequence of identifiers that iteration visits.
\<close>

fun Take100_loop :: "SteamID list \<Rightarrow> SteamID list \<Rightarrow> SteamID list" where
  "Take100_loop [] retVal = retVal"
| "Take100_loop (sid # rest) retVal =
     (if length retVal \<ge> 100 then retVal else Take100_loop rest (retVal @ [sid]))"

definition Take100 :: "SteamID list \<Rightarrow> SteamID list" where
  "Take100 collection = Take100_loop collection []"

text \<open>
  \<^verbatim>\<open>PlayerSummaryUpdateAction::SendRequest\<close>, lines 810-824 (and its twin for bans, lines
  837-850). The result is the batch handed to the API call, \<open>None\<close> for the empty future
  returned when no request is made, and the collection as the call leaves it (it is
  passed by mutable reference).
\<close>

definition SendRequest :: "Settings \<Rightarrow> SteamID list \<Rightarrow> SteamID list option \<times> SteamID list" where
  "SendRequest st collection =
     (if \<not> HTTPClient st then (None, collection)
      else if SteamAPIKey st = [] then (None, collection)
      else (Some (Take100 collection), collection))"

section \<open>Line ingestion\<close>

text \<open>
  \<^verbatim>\<open>std::string_view::find(ch, pos)\<close> (\<open>None\<close> is \<^verbatim>\<open>npos\<close>) and \<^verbatim>\<open>substr(pos, n)\<close>; the
  loop never calls \<^verbatim>\<open>substr\<close> with a position beyond the end.
\<close>

primrec find_char :: "char \<Rightarrow> string \<Rightarrow> nat option" where
  "find_char c [] = None"
| "find_char c (x # xs) = (if x = c then Some 0 else map_option Suc (find_char c xs))"

definition find_from :: "string \<Rightarrow> char \<Rightarrow> nat \<Rightarrow> nat option" where
  "find_from s c pos = map_option (\<lambda>k. pos + k) (find_char c (drop pos s))"

definition substr :: "string \<Rightarrow> nat \<Rightarrow> nat \<Rightarrow> string" where
  "substr s pos n = take n (drop pos s)"

definition LF :: char where
  "LF = CHR 0x0A"

lemma find_char_bound: "find_char c xs = Some k \<Longrightarrow> k < length xs"
  by (induction xs arbitrary: k) (auto split: if_splits)

lemma find_from_bounds: "find_from s c pos = Some i \<Longrightarrow> pos \<le> i \<and> i < length s"
  by (auto simp: find_from_def dest!: find_char_bound)

text \<open>
  \<^verbatim>\<open>WorldStateConLog::AddConsoleOutputChunk\<close>, lines 91-100: \<open>handler\<close> stands for the call
  of \<^verbatim>\<open>AddConsoleOutputLine\<close> and returns the notifications that call sends; \<open>last_pos\<close>
  is the variable \<^verbatim>\<open>last\<close>.
\<close>

function AddConsoleOutputChunk_loop :: "(string \<Rightarrow> 'n list) \<Rightarrow> string \<Rightarrow> nat \<Rightarrow> 'n list" where
  "AddConsoleOutputChunk_loop handler chunk last_pos =
     (case find_from chunk LF last_pos of
        None \<Rightarrow> []
      | Some i \<Rightarrow>
          handler (substr chunk last_pos (i - last_pos)) @ AddConsoleOutputChunk_loop handler chunk (i + 1))"
  by pat_completeness auto
termination
proof (relation "measure (\<lambda>(handler, chunk, last_pos). length chunk - last_pos)")
  show "wf (measure (\<lambda>(handler :: string \<Rightarrow> 'n list, chunk, last_pos). length chunk - last_pos))"
    by simp
next
  fix handler :: "string \<Rightarrow> 'n list" and chunk :: string and last_pos i :: nat
  assume "find_from chunk LF last_pos = Some i"
  then have "last_pos \<le> i \<and> i < length chunk"
    by (rule find_from_bounds)
  then show "((handler, chunk, i + 1), (handler, chunk, last_pos))
              \<in> measure (\<lambda>(handler, chunk, last_pos). length chunk - last_pos)"
    by (simp, arith)
qed

text \<open>
  \<^verbatim>\<open>WorldStateConLog::AddConsoleOutputLine\<close>, lines 102-115. \<open>parse\<close> is
  \<^verbatim>\<open>IConsoleLine::ParseConsoleLine\<close> at the session's current time and \<open>listeners\<close> the
  registered line listeners in the order the set iterates them; a notification names
  the listener called and what it is given.
\<close>

datatype ('l, 'r) LineNotification =
    Parsed 'l 'r
  | Unparsed 'l string

definition AddConsoleOutputLine ::
  "(string \<Rightarrow> 'r option) \<Rightarrow> 'l list \<Rightarrow> string \<Rightarrow> ('l, 'r) LineNotification list" where
  "AddConsoleOutputLine parse listeners line =
     (case parse line of
        Some parsed \<Rightarrow> map (\<lambda>listener. Parsed listener parsed) listeners
      | None \<Rightarrow> map (\<lambda>listener. Unparsed listener line) listeners)"

definition AddConsoleOutputChunk ::
  "(string \<Rightarrow> 'r option) \<Rightarrow> 'l list \<Rightarrow> string \<Rightarrow> ('l, 'r) LineNotification list" where
  "AddConsoleOutputChunk parse listeners chunk =
     AddConsoleOutputChunk_loop (AddConsoleOutputLine parse listeners) chunk 0"

section \<open>Notions and concrete sessions for the statements\<close>

text \<open>
  The constructor \<^verbatim>\<open>WorldState(settings)\<close>, lines 21-27: empty containers, cleared flags
  and epoch timestamps.
\<close>

definition WorldState_ctor :: "Settings \<Rightarrow> WorldState" where
  "WorldState_ctor settings =
     \<lparr> m_Settings = settings, m_CurrentPlayerData = [], m_CurrentLobbyMembers = [],
       m_PendingLobbyMembers = [], m_IsLocalPlayerInitialized = False,
       m_IsVoteInProgress = False, WorldState.m_LastStatusUpdateTime = 0,
       m_CurrentTimestamp = 0, m_PlayerSummaryUpdates = {}, m_PlayerBansUpdates = {} \<rparr>"

definition lazy_settings :: Settings where
  "lazy_settings =
     \<lparr> m_LazyLoadAPIData = True, LocalSteamID = 1, SteamAPIKey = [], HTTPClient = False \<rparr>"

definition empty_slot :: LobbyMember where
  "empty_slot = \<lparr> m_Index = 0, LobbyMember.m_SteamID = 0, LobbyMember.m_Team = Invaders,
                  m_Pending = False \<rparr>"

text \<open>
  One choice of the header's declarations: a clock of 1000 ticks per second, an empty
  slot with identifier 0, a slot valid when its identifier is not 0, and newlines left
  as they are.
\<close>

definition decls1000 :: Decls where
  "decls1000 =
     \<lparr> ticks_per_second = 1000, LobbyMember_default = empty_slot,
       IsValid = (\<lambda>member. LobbyMember.m_SteamID member \<noteq> 0),
       CollapseNewlines = (\<lambda>s. s) \<rparr>"

definition member_of :: "nat \<Rightarrow> SteamID \<Rightarrow> bool \<Rightarrow> LobbyMember" where
  "member_of i sid pending =
     \<lparr> m_Index = i, LobbyMember.m_SteamID = sid, LobbyMember.m_Team = Defenders,
       m_Pending = pending \<rparr>"

definition status_of :: "string \<Rightarrow> SteamID \<Rightarrow> time_point_t \<Rightarrow> PlayerStatus" where
  "status_of name sid connected =
     \<lparr> m_Name = name, PlayerStatus.m_SteamID = sid, m_ConnectionTime = connected,
       m_UserID = 2, m_Ping = 40, m_State = Active \<rparr>"

text \<open>
  A session with one pending lobby member (and the player record made for it), and a
  session with no lobby slots and one player known from a status line.
\<close>

definition world_pending :: WorldState where
  "world_pending =
     OnConsoleLines decls1000 (WorldState_ctor lazy_settings)
       [LobbyHeaderLine 0 1, LobbyMemberLine (member_of 0 7 True)]"

definition world_status_only :: WorldState where
  "world_status_only =
     OnConsoleLines decls1000 (WorldState_ctor lazy_settings)
       [ServerStatusPlayerLine (status_of ''bob'' 7 5000) 60000]"

definition swap_sides :: "nat \<Rightarrow> nat" where
  "swap_sides t = (if t = 0 then 1 else if t = 1 then 0 else t)"

text \<open>
  Three players known from status lines, two of them named bob, and two players of
  the same name whose status lines carry the same timestamp.
\<close>

definition world_three :: WorldState where
  "world_three =
     OnConsoleLines decls1000 (WorldState_ctor lazy_settings)
       [ServerStatusPlayerLine (status_of ''bob'' 7 5000) 60000,
        ServerStatusPlayerLine (status_of ''bob'' 8 5000) 61000,
        ServerStatusPlayerLine (status_of ''alice'' 9 5000) 62000]"

definition world_twins :: WorldState where
  "world_twins =
     OnConsoleLines decls1000 (WorldState_ctor lazy_settings)
       [ServerStatusPlayerLine (status_of ''bob'' 7 5000) 60000,
        ServerStatusPlayerLine (status_of ''bob'' 8 5000) 60000]"

definition table_summary :: "WorldState \<Rightarrow> (SteamID \<times> string \<times> time_point_t) list" where
  "table_summary w =
     map (\<lambda>(k, p). (k, m_Name (m_Status p), GetLastStatusUpdateTime p)) (m_CurrentPlayerData w)"

text \<open>
  Observing the connection time the table holds for an identifier. A player that has
  no record yet gets one from \<^verbatim>\<open>FindOrCreatePlayer\<close> before the comparison of lines
  532-533, with the epoch as its connection time, so the value previously stored for it
  is 0. \<open>stored_trace\<close> lists the stored value after each of a run of status lines.
\<close>

definition GetConnectionTime :: "PlayerExtraData \<Rightarrow> time_point_t" where
  "GetConnectionTime p = m_ConnectionTime (m_Status p)"

definition stored_connection_time :: "WorldState \<Rightarrow> SteamID \<Rightarrow> time_point_t" where
  "stored_connection_time w sid =
     (case FindPlayer w sid of None \<Rightarrow> 0 | Some p \<Rightarrow> GetConnectionTime p)"

fun stored_trace :: "Decls \<Rightarrow> WorldState \<Rightarrow> SteamID \<Rightarrow> (PlayerStatus \<times> time_point_t) list \<Rightarrow> time_point_t list" where
  "stored_trace X w sid [] = []"
| "stored_trace X w sid ((status, timestamp) # rest) =
     (let w' = fst (OnConsoleLineParsed X w (ServerStatusPlayerLine status timestamp))
      in stored_connection_time w' sid # stored_trace X w' sid rest)"


definition jitter_run :: "(PlayerStatus \<times> time_point_t) list" where
  "jitter_run =
     [(status_of ''bob'' 7 10000, 60000), (status_of ''bob'' 7 11000, 61000),
      (status_of ''bob'' 7 12000, 62000), (status_of ''bob'' 7 11000, 63000),
      (status_of ''bob'' 7 10000, 64000)]"

definition steady_run :: "(PlayerStatus \<times> time_point_t) list" where
  "steady_run = [(status_of ''bob'' 7 6000, 61000), (status_of ''bob'' 7 4500, 62000)]"

text \<open>
  Whether a line is a lobby header, the one line that resizes the slot sequences; and
  a session that has seen the header of a lobby of two members and one pending member.
\<close>

fun is_LobbyHeader :: "IConsoleLine \<Rightarrow> bool" where
  "is_LobbyHeader (LobbyHeaderLine memberCount pendingCount) = True"
| "is_LobbyHeader l = False"

definition world_header :: WorldState where
  "world_header = OnConsoleLines decls1000 (WorldState_ctor lazy_settings) [LobbyHeaderLine 2 1]"

text \<open>
  Notions for the statements about \<open>GetLobbyMembers\<close>. A slot member has a record when
  the player table has an entry under its identifier, and a yielded record denotes a
  member when it is that entry. The confirmed occupants are the valid confirmed slots;
  the pending occupants are the valid pending slots whose identifier is the identifier
  of no confirmed slot. These are the members the two loops hand to \<open>GetPlayer\<close>.
  \<open>table_ok\<close> says that every record of the table carries the identifier it is stored
  under, which lines 643 and 538 assert.
\<close>

definition has_record :: "WorldState \<Rightarrow> LobbyMember \<Rightarrow> bool" where
  "has_record w member \<longleftrightarrow> FindPlayer w (LobbyMember.m_SteamID member) \<noteq> None"

definition denotes :: "WorldState \<Rightarrow> PlayerExtraData \<Rightarrow> LobbyMember \<Rightarrow> bool" where
  "denotes w p member \<longleftrightarrow> FindPlayer w (LobbyMember.m_SteamID member) = Some p"

definition confirmed_occupants :: "Decls \<Rightarrow> WorldState \<Rightarrow> LobbyMember list" where
  "confirmed_occupants X w = filter (IsValid X) (m_CurrentLobbyMembers w)"

definition pending_occupants :: "Decls \<Rightarrow> WorldState \<Rightarrow> LobbyMember list" where
  "pending_occupants X w =
     filter (\<lambda>member. IsValid X member
               \<and> LobbyMember.m_SteamID member
                   \<notin> LobbyMember.m_SteamID ` set (m_CurrentLobbyMembers w))
       (m_PendingLobbyMembers w)"

definition table_ok :: "WorldState \<Rightarrow> bool" where
  "table_ok w \<longleftrightarrow> list_all (\<lambda>(k, p). GetSteamID p = k) (m_CurrentPlayerData w)"

definition missing_player :: error where
  "missing_player = runtime_error ''Missing player for lobby member!''"


text \<open>
  A lobby of two confirmed and two pending members, one identifier in both sequences;
  a lobby seen between two lines of a second lobby listing in which the members have
  moved up one slot; and the first lobby with the record of identifier 8 taken out of
  the player table.
\<close>

definition world_lobby :: WorldState where
  "world_lobby =
     OnConsoleLines decls1000 (WorldState_ctor lazy_settings)
       [LobbyHeaderLine 2 2,
        LobbyMemberLine (member_of 0 7 False), LobbyMemberLine (member_of 1 8 False),
        LobbyMemberLine (member_of 0 8 True), LobbyMemberLine (member_of 1 9 True)]"

definition world_shifted :: WorldState where
  "world_shifted =
     OnConsoleLines decls1000 (WorldState_ctor lazy_settings)
       [LobbyHeaderLine 3 0,
        LobbyMemberLine (member_of 0 7 False), LobbyMemberLine (member_of 1 8 False),
        LobbyMemberLine (member_of 2 9 False),
        LobbyHeaderLine 3 0,
        LobbyMemberLine (member_of 0 8 False)]"

definition world_orphan :: WorldState where
  "world_orphan =
     world_lobby\<lparr> m_CurrentPlayerData :=
                    filter (\<lambda>(k, p). k \<noteq> 8) (m_CurrentPlayerData world_lobby) \<rparr>"

text \<open>
  The identifiers 0 to 100 in ascending order: the sequence in which a container
  ordered by identifier iterates a pending set of these 101 identifiers.
\<close>

definition ids_upto_100 :: "SteamID list" where
  "ids_upto_100 = [0..<101]"

text \<open>
  One \<^verbatim>\<open>std::sort\<close> the program is built with: that of the GNU C++ library
  (\<^verbatim>\<open>bits/stl_algo.h\<close> and \<^verbatim>\<open>bits/stl_heap.h\<close>), with the library's function names less
  their leading underscores. The range is a list and an iterator an index into it;
  \<open>scan_up\<close> and \<open>scan_down\<close> are the two inner loops of \<^verbatim>\<open>__unguarded_partition\<close> and
  \<open>adjust_heap_loop\<close> is the loop of \<^verbatim>\<open>__adjust_heap\<close>.
  The introsort loop partitions a range of more than 16 elements around the median of
  its second, middle and last element and sorts on in the two parts, falls back to a
  heap sort when its depth limit of twice the logarithm of the length is used up, and
  leaves ranges of 16 or fewer elements to one final insertion sort.

  The partition scans and the linear insertion are unguarded in the library: they
  rely on an element that stops them. The model stops them at the ends of the list,
  where the library would leave the array.
\<close>

definition iter_swap :: "'a list \<Rightarrow> nat \<Rightarrow> nat \<Rightarrow> 'a list" where
  "iter_swap xs i j = xs[i := xs ! j, j := xs ! i]"

definition move_median_to_first ::
  "('a \<Rightarrow> 'a \<Rightarrow> bool) \<Rightarrow> 'a list \<Rightarrow> nat \<Rightarrow> nat \<Rightarrow> nat \<Rightarrow> nat \<Rightarrow> 'a list" where
  "move_median_to_first cmp xs result a b c =
     (if cmp (xs ! a) (xs ! b)
      then (if cmp (xs ! b) (xs ! c) then iter_swap xs result b
            else if cmp (xs ! a) (xs ! c) then iter_swap xs result c
            else iter_swap xs result a)
      else if cmp (xs ! a) (xs ! c) then iter_swap xs result a
      else if cmp (xs ! b) (xs ! c) then iter_swap xs result c
      else iter_swap xs result b)"

function scan_up :: "('a \<Rightarrow> 'a \<Rightarrow> bool) \<Rightarrow> 'a list \<Rightarrow> nat \<Rightarrow> nat \<Rightarrow> nat" where
  "scan_up cmp xs pivot i =
     (if i < length xs \<and> cmp (xs ! i) (xs ! pivot) then scan_up cmp xs pivot (Suc i) else i)"
  by pat_completeness auto
termination
  by (relation "measure (\<lambda>(cmp, xs, pivot, i). length xs - i)") auto

declare scan_up.simps [simp del]

fun scan_down :: "('a \<Rightarrow> 'a \<Rightarrow> bool) \<Rightarrow> 'a list \<Rightarrow> nat \<Rightarrow> nat \<Rightarrow> nat" where
  "scan_down cmp xs pivot 0 = 0"
| "scan_down cmp xs pivot (Suc j) =
     (if cmp (xs ! pivot) (xs ! Suc j) then scan_down cmp xs pivot j else Suc j)"

lemma scan_up_ge: "i \<le> scan_up cmp xs pivot i"
proof (induction cmp xs pivot i rule: scan_up.induct)
  case (1 cmp xs pivot i)
  then show ?case
    by (subst scan_up.simps) auto
qed

lemma scan_down_le: "scan_down cmp xs pivot j \<le> j"
  by (induction j) auto

function unguarded_partition ::
  "('a \<Rightarrow> 'a \<Rightarrow> bool) \<Rightarrow> 'a list \<Rightarrow> nat \<Rightarrow> nat \<Rightarrow> nat \<Rightarrow> 'a list \<times> nat" where
  "unguarded_partition cmp xs first last_pos pivot =
     (let first1 = scan_up cmp xs pivot first;
          last1 = scan_down cmp xs pivot (last_pos - 1)
      in if \<not> first1 < last1 then (xs, first1)
         else unguarded_partition cmp (iter_swap xs first1 last1) (first1 + 1) last1 pivot)"
  by pat_completeness auto
termination
proof (relation "measure (\<lambda>(cmp, xs, first, last_pos, pivot). last_pos - first)")
  show "wf (measure (\<lambda>(cmp :: 'a \<Rightarrow> 'a \<Rightarrow> bool, xs :: 'a list, first, last_pos, pivot :: nat). last_pos - first))"
    by simp
next
  fix cmp :: "'a \<Rightarrow> 'a \<Rightarrow> bool" and xs :: "'a list" and first last_pos pivot first1 last1 :: nat
  assume a: "first1 = scan_up cmp xs pivot first" "last1 = scan_down cmp xs pivot (last_pos - 1)"
     "\<not> \<not> first1 < last1"
  have "first \<le> first1" using a(1) scan_up_ge by simp
  moreover have "last1 \<le> last_pos - 1" using a(2) scan_down_le by simp
  ultimately show "((cmp, iter_swap xs first1 last1, first1 + 1, last1, pivot), (cmp, xs, first, last_pos, pivot))
      \<in> measure (\<lambda>(cmp, xs, first, last_pos, pivot). last_pos - first)"
    using a(3) by simp
qed

declare unguarded_partition.simps [simp del]

definition unguarded_partition_pivot ::
  "('a \<Rightarrow> 'a \<Rightarrow> bool) \<Rightarrow> 'a list \<Rightarrow> nat \<Rightarrow> nat \<Rightarrow> 'a list \<times> nat" where
  "unguarded_partition_pivot cmp xs first last_pos =
     (let mid = first + (last_pos - first) div 2;
          xs1 = move_median_to_first cmp xs first (first + 1) mid (last_pos - 1)
      in unguarded_partition cmp xs1 (first + 1) last_pos first)"

text \<open>The heap sort of the depth-limit fallback, \<^verbatim>\<open>std::__partial_sort\<close> on the whole range.\<close>

function push_heap ::
  "('a \<Rightarrow> 'a \<Rightarrow> bool) \<Rightarrow> 'a list \<Rightarrow> nat \<Rightarrow> nat \<Rightarrow> nat \<Rightarrow> 'a \<Rightarrow> 'a list" where
  "push_heap cmp xs first holeIndex topIndex v =
     (let parent = (holeIndex - 1) div 2
      in if holeIndex > topIndex \<and> cmp (xs ! (first + parent)) v
         then push_heap cmp (xs[first + holeIndex := xs ! (first + parent)]) first parent topIndex v
         else xs[first + holeIndex := v])"
  by pat_completeness auto
termination
  by (relation "measure (\<lambda>(cmp, xs, first, holeIndex, topIndex, v). holeIndex)") auto

declare push_heap.simps [simp del]

function adjust_heap_loop ::
  "('a \<Rightarrow> 'a \<Rightarrow> bool) \<Rightarrow> 'a list \<Rightarrow> nat \<Rightarrow> nat \<Rightarrow> nat \<Rightarrow> 'a list \<times> nat" where
  "adjust_heap_loop cmp xs first len secondChild =
     (if secondChild < (len - 1) div 2
      then (let child = 2 * (secondChild + 1);
                child = (if cmp (xs ! (first + child)) (xs ! (first + (child - 1)))
                         then child - 1 else child)
            in adjust_heap_loop cmp (xs[first + secondChild := xs ! (first + child)]) first len child)
      else (xs, secondChild))"
  by pat_completeness auto
termination
  by (relation "measure (\<lambda>(cmp, xs, first, len, secondChild). len - secondChild)") auto

declare adjust_heap_loop.simps [simp del]

definition adjust_heap ::
  "('a \<Rightarrow> 'a \<Rightarrow> bool) \<Rightarrow> 'a list \<Rightarrow> nat \<Rightarrow> nat \<Rightarrow> nat \<Rightarrow> 'a \<Rightarrow> 'a list" where
  "adjust_heap cmp xs first holeIndex len v =
     (let topIndex = holeIndex;
          (xs1, secondChild) = adjust_heap_loop cmp xs first len holeIndex
      in if even len \<and> secondChild = (len - 2) div 2
         then (let child = 2 * (secondChild + 1)
               in push_heap cmp (xs1[first + secondChild := xs1 ! (first + (child - 1))])
                    first (child - 1) topIndex v)
         else push_heap cmp xs1 first secondChild topIndex v)"

definition make_heap :: "('a \<Rightarrow> 'a \<Rightarrow> bool) \<Rightarrow> 'a list \<Rightarrow> nat \<Rightarrow> nat \<Rightarrow> 'a list" where
  "make_heap cmp xs first last_pos =
     (if last_pos - first < 2 then xs
      else (let len = last_pos - first
            in fold (\<lambda>parent ys. adjust_heap cmp ys first parent len (ys ! (first + parent)))
                 (rev [0..<Suc ((len - 2) div 2)]) xs))"

definition pop_heap :: "('a \<Rightarrow> 'a \<Rightarrow> bool) \<Rightarrow> 'a list \<Rightarrow> nat \<Rightarrow> nat \<Rightarrow> nat \<Rightarrow> 'a list" where
  "pop_heap cmp xs first last_pos result =
     (let v = xs ! result
      in adjust_heap cmp (xs[result := xs ! first]) first 0 (last_pos - first) v)"

definition heap_select :: "('a \<Rightarrow> 'a \<Rightarrow> bool) \<Rightarrow> 'a list \<Rightarrow> nat \<Rightarrow> nat \<Rightarrow> nat \<Rightarrow> 'a list" where
  "heap_select cmp xs first middle last_pos =
     fold (\<lambda>i ys. if cmp (ys ! i) (ys ! first) then pop_heap cmp ys first middle i else ys)
       [middle..<last_pos] (make_heap cmp xs first middle)"

definition sort_heap :: "('a \<Rightarrow> 'a \<Rightarrow> bool) \<Rightarrow> 'a list \<Rightarrow> nat \<Rightarrow> nat \<Rightarrow> 'a list" where
  "sort_heap cmp xs first last_pos =
     fold (\<lambda>l ys. pop_heap cmp ys first l l) (rev [first + 1..<last_pos]) xs"

definition partial_sort :: "('a \<Rightarrow> 'a \<Rightarrow> bool) \<Rightarrow> 'a list \<Rightarrow> nat \<Rightarrow> nat \<Rightarrow> nat \<Rightarrow> 'a list" where
  "partial_sort cmp xs first middle last_pos =
     sort_heap cmp (heap_select cmp xs first middle last_pos) first middle"

text \<open>The introsort loop, by recursion on its depth limit.\<close>

fun introsort_loop ::
  "('a \<Rightarrow> 'a \<Rightarrow> bool) \<Rightarrow> 'a list \<Rightarrow> nat \<Rightarrow> nat \<Rightarrow> nat \<Rightarrow> 'a list" where
  "introsort_loop cmp xs first last_pos 0 =
     (if last_pos - first > 16 then partial_sort cmp xs first last_pos last_pos else xs)"
| "introsort_loop cmp xs first last_pos (Suc depth_limit) =
     (if last_pos - first > 16
      then (let (xs1, cut) = unguarded_partition_pivot cmp xs first last_pos;
                xs2 = introsort_loop cmp xs1 cut last_pos depth_limit
            in introsort_loop cmp xs2 first cut depth_limit)
      else xs)"

text \<open>The final insertion sort.\<close>

fun unguarded_linear_insert_loop ::
  "('a \<Rightarrow> 'a \<Rightarrow> bool) \<Rightarrow> 'a \<Rightarrow> 'a list \<Rightarrow> nat \<Rightarrow> 'a list" where
  "unguarded_linear_insert_loop cmp v xs 0 = xs[0 := v]"
| "unguarded_linear_insert_loop cmp v xs (Suc n) =
     (if cmp v (xs ! n) then unguarded_linear_insert_loop cmp v (xs[Suc n := xs ! n]) n
      else xs[Suc n := v])"

definition unguarded_linear_insert :: "('a \<Rightarrow> 'a \<Rightarrow> bool) \<Rightarrow> 'a list \<Rightarrow> nat \<Rightarrow> 'a list" where
  "unguarded_linear_insert cmp xs last_pos = unguarded_linear_insert_loop cmp (xs ! last_pos) xs last_pos"

definition insertion_sort :: "('a \<Rightarrow> 'a \<Rightarrow> bool) \<Rightarrow> 'a list \<Rightarrow> nat \<Rightarrow> nat \<Rightarrow> 'a list" where
  "insertion_sort cmp xs first last_pos =
     (if first = last_pos then xs
      else fold (\<lambda>i ys. if cmp (ys ! i) (ys ! first)
                         then take first ys @ ys ! i # take (i - first) (drop first ys)
                                @ drop (Suc i) ys
                         else unguarded_linear_insert cmp ys i)
             [first + 1..<last_pos] xs)"

definition unguarded_insertion_sort ::
  "('a \<Rightarrow> 'a \<Rightarrow> bool) \<Rightarrow> 'a list \<Rightarrow> nat \<Rightarrow> nat \<Rightarrow> 'a list" where
  "unguarded_insertion_sort cmp xs first last_pos =
     fold (\<lambda>i ys. unguarded_linear_insert cmp ys i) [first..<last_pos] xs"

definition final_insertion_sort ::
  "('a \<Rightarrow> 'a \<Rightarrow> bool) \<Rightarrow> 'a list \<Rightarrow> nat \<Rightarrow> nat \<Rightarrow> 'a list" where
  "final_insertion_sort cmp xs first last_pos =
     (if last_pos - first > 16
      then unguarded_insertion_sort cmp (insertion_sort cmp xs first (first + 16))
             (first + 16) last_pos
      else insertion_sort cmp xs first last_pos)"

text \<open>\<^verbatim>\<open>std::__lg\<close>, the rounded-down binary logarithm, and \<^verbatim>\<open>std::sort\<close> itself.\<close>

fun floor_lg :: "nat \<Rightarrow> nat" where
  "floor_lg n = (if n < 2 then 0 else Suc (floor_lg (n div 2)))"

declare floor_lg.simps [simp del]

definition gnu_sort :: "('a \<Rightarrow> 'a \<Rightarrow> bool) \<Rightarrow> 'a list \<Rightarrow> 'a list" where
  "gnu_sort cmp xs =
     (if xs = [] then xs
      else final_insertion_sort cmp
             (introsort_loop cmp xs 0 (length xs) (floor_lg (length xs) * 2)) 0 (length xs))"

text \<open>
  A player table of forty players that all had their last status line at one
  timestamp, as the players of one status listing do. The identifiers 1 to 40 stand
  in the order in which the table iterates them.
\<close>

definition tied_table :: "(SteamID \<times> PlayerExtraData) list" where
  "tied_table =
     map (\<lambda>sid. (sid, SetStatus decls1000 (status_of ''bot'' sid 5000) 60000
                         (PlayerExtraData_init sid)))
       [1..<41]"

text \<open>
  The query as the spec words it: a stable sort, descending by last status update,
  cut to the count asked for. (\<open>sort_key\<close> is the library's stable insertion sort.)
\<close>

definition spec_recent_players :: "(SteamID \<times> PlayerExtraData) list \<Rightarrow> nat \<Rightarrow> PlayerExtraData list" where
  "spec_recent_players table n =
     take n (sort_key (\<lambda>p. - GetLastStatusUpdateTime p) (map snd table))"

text \<open>A parser that knows one line, for exercising the ingestion of a chunk.\<close>

definition parse_hello :: "string \<Rightarrow> nat option" where
  "parse_hello line = (if line = ''hello'' then Some 1 else None)"

section \<open>Team relationship\<close>

text \<open>
  C2. The classification of two optional teams is \<open>Neither\<close> (the spec's Unknown) when
  either is absent and \<open>SameTeams\<close> when both are present and equal. It is
  \<open>OppositeTeams\<close> when they differ and the first is the opposite of the second, which
  is the test the code makes; for an \<^verbatim>\<open>OppositeTeam\<close> that is its own inverse, as the
  swap of two sides is, that is the same as one being the opposite of the other.
  The error is raised exactly when both are present, different and not opposite, and
  it is the only error there is: no default is returned in that case.
\<close>

theorem GetTeamShareResult_classification:
  "GetTeamShareResult Opp None team1 = Inr Neither
   \<and> GetTeamShareResult Opp team0 None = Inr Neither
   \<and> GetTeamShareResult Opp (Some a) (Some a) = Inr SameTeams
   \<and> (a \<noteq> b \<and> a = Opp b \<longrightarrow> GetTeamShareResult Opp (Some a) (Some b) = Inr OppositeTeams)
   \<and> ((\<forall>t. Opp (Opp t) = t) \<and> a \<noteq> b \<and> (a = Opp b \<or> b = Opp a)
        \<longrightarrow> GetTeamShareResult Opp (Some a) (Some b) = Inr OppositeTeams)
   \<and> (GetTeamShareResult Opp team0 team1 = Inl (runtime_error ''Unexpected team value(s)'')
        \<longleftrightarrow> (\<exists>x y. team0 = Some x \<and> team1 = Some y \<and> x \<noteq> y \<and> x \<noteq> Opp y))
   \<and> ((\<exists>e. GetTeamShareResult Opp team0 team1 = Inl e)
        \<longleftrightarrow> GetTeamShareResult Opp team0 team1 = Inl (runtime_error ''Unexpected team value(s)''))"
proof -
  have inv: "a = Opp b" if "\<forall>t. Opp (Opp t) = t" "b = Opp a"
    using that by metis
  show ?thesis
    using inv by (auto simp: GetTeamShareResult_def split: option.splits)
qed

theorem GetTeamShareResult_classification_witness:
  "GetTeamShareResult swap_sides (Some 0) (Some 1) = Inr OppositeTeams
   \<and> GetTeamShareResult swap_sides (Some 1) (Some 0) = Inr OppositeTeams
   \<and> GetTeamShareResult swap_sides (Some 0) (Some 0) = Inr SameTeams
   \<and> GetTeamShareResult swap_sides None (Some 0) = Inr Neither
   \<and> GetTeamShareResult swap_sides (Some 0) (Some 2)
        = Inl (runtime_error ''Unexpected team value(s)'')"
proof -
  have inv: "\<forall>t. swap_sides (swap_sides t) = t"
    by (simp add: swap_sides_def)
  have h1: "(0::nat) \<noteq> 1 \<and> 0 = swap_sides 1"
    by (simp add: swap_sides_def)
  have h2: "(\<forall>t. swap_sides (swap_sides t) = t) \<and> (1::nat) \<noteq> 0
             \<and> (1 = swap_sides 0 \<or> 0 = swap_sides 1)"
    using inv by (simp add: swap_sides_def)
  have h3: "\<exists>x y. Some (0::nat) = Some x \<and> Some (2::nat) = Some y \<and> x \<noteq> y \<and> x \<noteq> swap_sides y"
    by (simp add: swap_sides_def)
  from GetTeamShareResult_classification [of swap_sides "Some 0" "Some 0" 0 1] h1
  have a: "GetTeamShareResult swap_sides (Some 0) (Some 1) = Inr OppositeTeams"
    and c: "GetTeamShareResult swap_sides (Some 0) (Some 0) = Inr SameTeams"
    and d: "GetTeamShareResult swap_sides None (Some 0) = Inr Neither"
    by blast+
  from GetTeamShareResult_classification [of swap_sides "Some 0" "Some 0" 1 0] h2
  have b: "GetTeamShareResult swap_sides (Some 1) (Some 0) = Inr OppositeTeams"
    by blast
  from GetTeamShareResult_classification [of swap_sides "Some 2" "Some 0" 0 0] h3
  have e: "GetTeamShareResult swap_sides (Some 0) (Some 2)
        = Inl (runtime_error ''Unexpected team value(s)'')"
    by blast
  from a b c d e show ?thesis by blast
qed

section \<open>Lobby status failure\<close>

text \<open>
  C4. On a lobby-status-failure line, if the confirmed or the pending slot sequence
  is non-empty, both sequences and the player table are emptied, every other field
  keeps its value and no event is sent; if both sequences are empty already, the state
  is returned as it was, player table included, and no event is sent.
\<close>

theorem LobbyStatusFailed_effect:
  "(m_CurrentLobbyMembers w \<noteq> [] \<or> m_PendingLobbyMembers w \<noteq> [] \<longrightarrow>
      m_CurrentLobbyMembers (fst (OnConsoleLineParsed X w LobbyStatusFailedLine)) = []
      \<and> m_PendingLobbyMembers (fst (OnConsoleLineParsed X w LobbyStatusFailedLine)) = []
      \<and> m_CurrentPlayerData (fst (OnConsoleLineParsed X w LobbyStatusFailedLine)) = []
      \<and> fst (OnConsoleLineParsed X w LobbyStatusFailedLine)
          = w\<lparr> m_CurrentLobbyMembers := [], m_PendingLobbyMembers := [],
                m_CurrentPlayerData := [] \<rparr>
      \<and> snd (OnConsoleLineParsed X w LobbyStatusFailedLine) = [])
   \<and> (m_CurrentLobbyMembers w = [] \<and> m_PendingLobbyMembers w = [] \<longrightarrow>
      OnConsoleLineParsed X w LobbyStatusFailedLine = (w, []))"
  by simp

theorem LobbyStatusFailed_effect_witness:
  "m_PendingLobbyMembers world_pending \<noteq> []
   \<and> m_CurrentPlayerData world_pending \<noteq> []
   \<and> m_CurrentPlayerData (fst (OnConsoleLineParsed decls1000 world_pending LobbyStatusFailedLine)) = []
   \<and> m_PendingLobbyMembers (fst (OnConsoleLineParsed decls1000 world_pending LobbyStatusFailedLine)) = []
   \<and> m_CurrentLobbyMembers world_status_only = []
   \<and> m_PendingLobbyMembers world_status_only = []
   \<and> m_CurrentPlayerData world_status_only \<noteq> []
   \<and> OnConsoleLineParsed decls1000 world_status_only LobbyStatusFailedLine
        = (world_status_only, [])"
proof -
  have nonempty: "m_CurrentLobbyMembers world_pending \<noteq> [] \<or> m_PendingLobbyMembers world_pending \<noteq> []"
    by code_simp
  have table: "m_CurrentPlayerData world_pending \<noteq> []"
    by code_simp
  have empty: "m_CurrentLobbyMembers world_status_only = [] \<and> m_PendingLobbyMembers world_status_only = []"
    by code_simp
  have table': "m_CurrentPlayerData world_status_only \<noteq> []"
    by code_simp
  have cleared:
    "m_CurrentPlayerData (fst (OnConsoleLineParsed decls1000 world_pending LobbyStatusFailedLine)) = []
     \<and> m_PendingLobbyMembers (fst (OnConsoleLineParsed decls1000 world_pending LobbyStatusFailedLine)) = []"
    using LobbyStatusFailed_effect [of world_pending decls1000] nonempty by blast
  have kept: "OnConsoleLineParsed decls1000 world_status_only LobbyStatusFailedLine
        = (world_status_only, [])"
    using LobbyStatusFailed_effect [of world_status_only decls1000] empty by blast
  have "m_PendingLobbyMembers world_pending \<noteq> []"
    by code_simp
  with table table' empty cleared kept show ?thesis
    by blast
qed

section \<open>Name resolution\<close>

lemma FindSteamIDForName_loop_inv:
  "FindSteamIDForName_loop name ds (r, t) = (r', t') \<Longrightarrow>
   (if \<exists>d\<in>set ds. m_Name (m_Status (snd d)) = name \<and> t < GetLastStatusUpdateTime (snd d)
    then \<exists>pre d post. ds = pre @ d # post
           \<and> m_Name (m_Status (snd d)) = name
           \<and> r' = Some (GetSteamID (snd d))
           \<and> t' = GetLastStatusUpdateTime (snd d)
           \<and> t < t'
           \<and> (\<forall>q\<in>set pre. m_Name (m_Status (snd q)) = name \<longrightarrow> GetLastStatusUpdateTime (snd q) < t')
           \<and> (\<forall>q\<in>set post. m_Name (m_Status (snd q)) = name \<longrightarrow> GetLastStatusUpdateTime (snd q) \<le> t')
    else r' = r \<and> t' = t)"
proof (induction ds arbitrary: r t)
  case Nil
  then show ?case by simp
next
  case (Cons d ds)
  let ?m = "\<lambda>q. m_Name (m_Status (snd q)) = name"
  let ?T = "\<lambda>q. GetLastStatusUpdateTime (snd q)"
  show ?case
  proof (cases "?m d \<and> t < ?T d")
    case True
    with Cons.prems have run: "FindSteamIDForName_loop name ds (Some (GetSteamID (snd d)), ?T d) = (r', t')"
      by simp
    note IH = Cons.IH [OF run]
    show ?thesis
    proof (cases "\<exists>e\<in>set ds. ?m e \<and> ?T d < ?T e")
      case later: True
      with IH obtain pre e post where
        e: "ds = pre @ e # post" "?m e" "r' = Some (GetSteamID (snd e))" "t' = ?T e" "?T d < t'"
          "\<forall>q\<in>set pre. ?m q \<longrightarrow> ?T q < t'" "\<forall>q\<in>set post. ?m q \<longrightarrow> ?T q \<le> t'"
        by auto
      have "d # ds = (d # pre) @ e # post" using e(1) by simp
      moreover have "\<forall>q\<in>set (d # pre). ?m q \<longrightarrow> ?T q < t'" using e(5,6) by simp
      moreover have "t < t'" using True e(5) by simp
      ultimately have "\<exists>pre d' post. d # ds = pre @ d' # post \<and> ?m d' \<and> r' = Some (GetSteamID (snd d'))
          \<and> t' = ?T d' \<and> t < t' \<and> (\<forall>q\<in>set pre. ?m q \<longrightarrow> ?T q < t')
          \<and> (\<forall>q\<in>set post. ?m q \<longrightarrow> ?T q \<le> t')"
        using e(2,3,4,7) by blast
      moreover have "\<exists>d'\<in>set (d # ds). ?m d' \<and> t < ?T d'" using True by simp
      ultimately show ?thesis by simp
    next
      case none: False
      with IH have res: "r' = Some (GetSteamID (snd d))" "t' = ?T d" by auto
      have "d # ds = [] @ d # ds" by simp
      moreover have "\<forall>q\<in>set ds. ?m q \<longrightarrow> ?T q \<le> t'" using none res(2) by auto
      ultimately have "\<exists>pre d' post. d # ds = pre @ d' # post \<and> ?m d' \<and> r' = Some (GetSteamID (snd d'))
          \<and> t' = ?T d' \<and> t < t' \<and> (\<forall>q\<in>set pre. ?m q \<longrightarrow> ?T q < t')
          \<and> (\<forall>q\<in>set post. ?m q \<longrightarrow> ?T q \<le> t')"
        using True res by (metis empty_iff list.set(1))
      moreover have "\<exists>d'\<in>set (d # ds). ?m d' \<and> t < ?T d'" using True by simp
      ultimately show ?thesis by simp
    qed
  next
    case False
    with Cons.prems have run: "FindSteamIDForName_loop name ds (r, t) = (r', t')"
      by auto
    note IH = Cons.IH [OF run]
    show ?thesis
    proof (cases "\<exists>e\<in>set ds. ?m e \<and> t < ?T e")
      case later: True
      with IH obtain pre e post where
        e: "ds = pre @ e # post" "?m e" "r' = Some (GetSteamID (snd e))" "t' = ?T e" "t < t'"
          "\<forall>q\<in>set pre. ?m q \<longrightarrow> ?T q < t'" "\<forall>q\<in>set post. ?m q \<longrightarrow> ?T q \<le> t'"
        by auto
      have "d # ds = (d # pre) @ e # post" using e(1) by simp
      moreover have "\<forall>q\<in>set (d # pre). ?m q \<longrightarrow> ?T q < t'" using e(5,6) False by auto
      ultimately have "\<exists>pre d' post. d # ds = pre @ d' # post \<and> ?m d' \<and> r' = Some (GetSteamID (snd d'))
          \<and> t' = ?T d' \<and> t < t' \<and> (\<forall>q\<in>set pre. ?m q \<longrightarrow> ?T q < t')
          \<and> (\<forall>q\<in>set post. ?m q \<longrightarrow> ?T q \<le> t')"
        using e(2,3,4,5,7) by blast
      moreover have "\<exists>d'\<in>set (d # ds). ?m d' \<and> t < ?T d'" using later by simp
      ultimately show ?thesis by simp
    next
      case none: False
      with IH have "r' = r \<and> t' = t" by auto
      moreover have "\<not> (\<exists>d'\<in>set (d # ds). ?m d' \<and> t < ?T d')" using none False by simp
      ultimately show ?thesis by simp
    qed
  qed
qed


text \<open>
  C3, as amended. \<open>FindSteamIDForName\<close> considers the players whose status-snapshot
  name equals the queried name and whose last status update is later than the epoch,
  the start value of \<^verbatim>\<open>lastUpdated\<close>. It returns nothing exactly when there is no such
  player, in particular when no name matches. Otherwise it returns the identifier of a
  name-matching player whose timestamp is at least that of every name-matching player
  and strictly later than that of every name-matching player iterated before it: the
  first holder of the latest timestamp in the table's iteration order.
\<close>

theorem FindSteamIDForName_latest:
  "(FindSteamIDForName w name = None \<longleftrightarrow>
      \<not> (\<exists>d\<in>set (m_CurrentPlayerData w).
            m_Name (m_Status (snd d)) = name \<and> 0 < GetLastStatusUpdateTime (snd d)))
   \<and> (\<forall>sid. FindSteamIDForName w name = Some sid \<longrightarrow>
        (\<exists>pre d post. m_CurrentPlayerData w = pre @ d # post
           \<and> GetSteamID (snd d) = sid
           \<and> m_Name (m_Status (snd d)) = name
           \<and> 0 < GetLastStatusUpdateTime (snd d)
           \<and> (\<forall>q\<in>set pre. m_Name (m_Status (snd q)) = name
                 \<longrightarrow> GetLastStatusUpdateTime (snd q) < GetLastStatusUpdateTime (snd d))
           \<and> (\<forall>q\<in>set post. m_Name (m_Status (snd q)) = name
                 \<longrightarrow> GetLastStatusUpdateTime (snd q) \<le> GetLastStatusUpdateTime (snd d))))
   \<and> ((\<forall>d\<in>set (m_CurrentPlayerData w). m_Name (m_Status (snd d)) \<noteq> name)
        \<longrightarrow> FindSteamIDForName w name = None)"
proof -
  obtain r' t' where run: "FindSteamIDForName_loop name (m_CurrentPlayerData w) (None, 0) = (r', t')"
    by (cases "FindSteamIDForName_loop name (m_CurrentPlayerData w) (None, 0)") simp
  then have res: "FindSteamIDForName w name = r'"
    by (simp add: FindSteamIDForName_def)
  note inv = FindSteamIDForName_loop_inv [OF run]
  show ?thesis
  proof (cases "\<exists>d\<in>set (m_CurrentPlayerData w).
            m_Name (m_Status (snd d)) = name \<and> 0 < GetLastStatusUpdateTime (snd d)")
    case True
    with inv obtain pre d post where d:
      "m_CurrentPlayerData w = pre @ d # post" "m_Name (m_Status (snd d)) = name"
      "r' = Some (GetSteamID (snd d))" "t' = GetLastStatusUpdateTime (snd d)" "0 < t'"
      "\<forall>q\<in>set pre. m_Name (m_Status (snd q)) = name \<longrightarrow> GetLastStatusUpdateTime (snd q) < t'"
      "\<forall>q\<in>set post. m_Name (m_Status (snd q)) = name \<longrightarrow> GetLastStatusUpdateTime (snd q) \<le> t'"
      by auto
    have some: "FindSteamIDForName w name \<noteq> None"
      using res d(3) by simp
    have found: "\<exists>pre d post. m_CurrentPlayerData w = pre @ d # post
           \<and> GetSteamID (snd d) = sid
           \<and> m_Name (m_Status (snd d)) = name
           \<and> 0 < GetLastStatusUpdateTime (snd d)
           \<and> (\<forall>q\<in>set pre. m_Name (m_Status (snd q)) = name
                 \<longrightarrow> GetLastStatusUpdateTime (snd q) < GetLastStatusUpdateTime (snd d))
           \<and> (\<forall>q\<in>set post. m_Name (m_Status (snd q)) = name
                 \<longrightarrow> GetLastStatusUpdateTime (snd q) \<le> GetLastStatusUpdateTime (snd d))"
      if "FindSteamIDForName w name = Some sid" for sid
    proof -
      from that res d(3) have "GetSteamID (snd d) = sid" by simp
      with d show ?thesis by blast
    qed
    have matches: "\<not> (\<forall>d\<in>set (m_CurrentPlayerData w). m_Name (m_Status (snd d)) \<noteq> name)"
      using True by blast
    from some found matches True show ?thesis
      by blast
  next
    case False
    with inv have "r' = None" by auto
    then show ?thesis
      using False res by auto
  qed
qed


theorem FindSteamIDForName_latest_witness:
  "FindSteamIDForName world_three ''bob'' = Some 8
   \<and> (\<exists>pre d post. m_CurrentPlayerData world_three = pre @ d # post
         \<and> GetSteamID (snd d) = 8
         \<and> m_Name (m_Status (snd d)) = ''bob''
         \<and> 0 < GetLastStatusUpdateTime (snd d)
         \<and> (\<forall>q\<in>set pre. m_Name (m_Status (snd q)) = ''bob''
               \<longrightarrow> GetLastStatusUpdateTime (snd q) < GetLastStatusUpdateTime (snd d))
         \<and> (\<forall>q\<in>set post. m_Name (m_Status (snd q)) = ''bob''
               \<longrightarrow> GetLastStatusUpdateTime (snd q) \<le> GetLastStatusUpdateTime (snd d)))
   \<and> FindSteamIDForName world_three ''carol'' = None"
proof -
  have found: "FindSteamIDForName world_three ''bob'' = Some 8"
    by code_simp
  have nobody: "\<forall>d\<in>set (m_CurrentPlayerData world_three). m_Name (m_Status (snd d)) \<noteq> ''carol''"
    by code_simp
  from FindSteamIDForName_latest [of world_three "''bob''"] found
  have "\<exists>pre d post. m_CurrentPlayerData world_three = pre @ d # post
         \<and> GetSteamID (snd d) = 8
         \<and> m_Name (m_Status (snd d)) = ''bob''
         \<and> 0 < GetLastStatusUpdateTime (snd d)
         \<and> (\<forall>q\<in>set pre. m_Name (m_Status (snd q)) = ''bob''
               \<longrightarrow> GetLastStatusUpdateTime (snd q) < GetLastStatusUpdateTime (snd d))
         \<and> (\<forall>q\<in>set post. m_Name (m_Status (snd q)) = ''bob''
               \<longrightarrow> GetLastStatusUpdateTime (snd q) \<le> GetLastStatusUpdateTime (snd d))"
    by blast
  moreover from FindSteamIDForName_latest [of world_three "''carol''"] nobody
  have "FindSteamIDForName world_three ''carol'' = None"
    by blast
  ultimately show ?thesis
    using found by blast
qed

text \<open>
  C3 as stated fails in two ways. After a lobby-member line alone the table holds a
  record with the empty name and the epoch as its last status update; a query for the
  empty name matches it, yet nothing is returned. And of two players of one name whose
  status lines carry one timestamp the first is returned, although its timestamp is not
  strictly later than the other's.
\<close>

theorem FindSteamIDForName_counterexample:
  "table_summary world_pending = [(7, [], 0)]
   \<and> FindSteamIDForName world_pending [] = None
   \<and> table_summary world_twins = [(7, ''bob'', 60000), (8, ''bob'', 60000)]
   \<and> FindSteamIDForName world_twins ''bob'' = Some 7"
  by code_simp

section \<open>Connection time under status updates\<close>

lemma FindPlayer_modify_player:
  "FindPlayer (modify_player sid f w) k
     = (if k = sid then map_option f (FindPlayer w k) else FindPlayer w k)"
proof -
  have "map_of (map (\<lambda>(k, p). if k = sid then (k, f p) else (k, p)) xs) k
          = (if k = sid then map_option f (map_of xs k) else map_of xs k)" for xs
    by (induction xs) auto
  then show ?thesis
    by (simp add: FindPlayer_def modify_player_def)
qed

lemma FindOrCreatePlayer_found:
  "FindPlayer (fst (FindOrCreatePlayer w sid)) sid = Some (snd (FindOrCreatePlayer w sid))"
  by (auto simp: FindOrCreatePlayer_def FindPlayer_def PlayerExtraData_ctor_def map_add_def
           split: option.splits)

lemma FindOrCreatePlayer_record:
  "snd (FindOrCreatePlayer w sid)
     = (case FindPlayer w sid of
          Some p \<Rightarrow> p
        | None \<Rightarrow> snd (PlayerExtraData_ctor w sid))"
  by (auto simp: FindOrCreatePlayer_def FindPlayer_def split: option.splits prod.splits)

lemma ctor_ConnectionTime: "m_ConnectionTime (m_Status (snd (PlayerExtraData_ctor w sid))) = 0"
  by (simp add: PlayerExtraData_ctor_def PlayerExtraData_init_def)

lemma FindOrCreatePlayer_ConnectionTime:
  "m_ConnectionTime (m_Status (snd (FindOrCreatePlayer w sid))) = stored_connection_time w sid"
  by (simp add: FindOrCreatePlayer_record stored_connection_time_def GetConnectionTime_def
        ctor_ConnectionTime split: option.splits)

lemma OnPlayerStatus_record:
  "FindPlayer (fst (OnPlayerStatus X w status timestamp)) (PlayerStatus.m_SteamID status)
     = Some (SetStatus X
         (if \<bar>stored_connection_time w (PlayerStatus.m_SteamID status) - m_ConnectionTime status\<bar>
               < 2 * ticks_per_second X
          then status\<lparr> m_ConnectionTime :=
                         stored_connection_time w (PlayerStatus.m_SteamID status) \<rparr>
          else status)
         timestamp (snd (FindOrCreatePlayer w (PlayerStatus.m_SteamID status))))"
proof -
  obtain w1 playerData where foc: "FindOrCreatePlayer w (PlayerStatus.m_SteamID status) = (w1, playerData)"
    by (cases "FindOrCreatePlayer w (PlayerStatus.m_SteamID status)")
  have found: "FindPlayer w1 (PlayerStatus.m_SteamID status) = Some playerData"
    using FindOrCreatePlayer_found [of w "PlayerStatus.m_SteamID status"] foc by simp
  have old: "m_ConnectionTime (m_Status playerData) = stored_connection_time w (PlayerStatus.m_SteamID status)"
    using FindOrCreatePlayer_ConnectionTime [of w "PlayerStatus.m_SteamID status"] foc by simp
  have near: "(d < 2 * t \<and> - (2 * t) < d) = (\<bar>d\<bar> < 2 * t)" for d t :: int
    by arith
  define newStatus where
    "newStatus =
         (if \<bar>stored_connection_time w (PlayerStatus.m_SteamID status) - m_ConnectionTime status\<bar>
               < 2 * ticks_per_second X
          then status\<lparr> m_ConnectionTime :=
                         stored_connection_time w (PlayerStatus.m_SteamID status) \<rparr>
          else status)"
  have sid: "PlayerStatus.m_SteamID newStatus = PlayerStatus.m_SteamID status"
    by (simp add: newStatus_def)
  have "fst (OnPlayerStatus X w status timestamp)
          = (modify_player (PlayerStatus.m_SteamID status) (SetStatus X newStatus timestamp) w1)
              \<lparr> WorldState.m_LastStatusUpdateTime :=
                  max (WorldState.m_LastStatusUpdateTime w1) timestamp \<rparr>"
    unfolding newStatus_def old [symmetric]
    by (simp add: OnPlayerStatus_def foc Let_def near modify_player_def)
  then have "FindPlayer (fst (OnPlayerStatus X w status timestamp)) (PlayerStatus.m_SteamID status)
          = FindPlayer (modify_player (PlayerStatus.m_SteamID status) (SetStatus X newStatus timestamp) w1)
              (PlayerStatus.m_SteamID status)"
    by (simp add: FindPlayer_def)
  also have "\<dots> = Some (SetStatus X newStatus timestamp playerData)"
    by (simp add: FindPlayer_modify_player found)
  finally show ?thesis
    by (simp add: newStatus_def foc)
qed

lemma OnPlayerStatus_stored:
  "stored_connection_time (fst (OnPlayerStatus X w status timestamp)) (PlayerStatus.m_SteamID status)
     = (if \<bar>stored_connection_time w (PlayerStatus.m_SteamID status) - m_ConnectionTime status\<bar>
             < 2 * ticks_per_second X
        then stored_connection_time w (PlayerStatus.m_SteamID status)
        else m_ConnectionTime status)"
  by (simp add: stored_connection_time_def [of "fst (OnPlayerStatus X w status timestamp)"]
        OnPlayerStatus_record GetConnectionTime_def SetStatus_def Let_def)

lemma stored_trace_jumps:
  "\<forall>r\<in>set recs. PlayerStatus.m_SteamID (fst r) = sid \<Longrightarrow>
   successively (\<lambda>a b. b = a \<or> 2 * ticks_per_second X \<le> \<bar>b - a\<bar>)
     (stored_connection_time w sid # stored_trace X w sid recs)"
proof (induction recs arbitrary: w)
  case Nil
  then show ?case by simp
next
  case (Cons r recs)
  obtain status timestamp where r: "r = (status, timestamp)"
    by (cases r)
  with Cons.prems have sid: "PlayerStatus.m_SteamID status = sid"
    by simp
  let ?w' = "fst (OnPlayerStatus X w status timestamp)"
  have step: "stored_connection_time ?w' sid = stored_connection_time w sid
               \<or> 2 * ticks_per_second X \<le> \<bar>stored_connection_time ?w' sid - stored_connection_time w sid\<bar>"
    using OnPlayerStatus_stored [of X w status timestamp] sid
    by (auto split: if_splits)
  have rest: "successively (\<lambda>a b. b = a \<or> 2 * ticks_per_second X \<le> \<bar>b - a\<bar>)
     (stored_connection_time ?w' sid # stored_trace X ?w' sid recs)"
    using Cons.IH [of ?w'] Cons.prems by simp
  show ?case
    using step rest by (simp add: r Let_def)
qed

lemma stored_trace_constant:
  "\<forall>r\<in>set recs. PlayerStatus.m_SteamID (fst r) = sid
        \<and> \<bar>stored_connection_time w sid - m_ConnectionTime (fst r)\<bar> < 2 * ticks_per_second X \<Longrightarrow>
   stored_trace X w sid recs = replicate (length recs) (stored_connection_time w sid)"
proof (induction recs arbitrary: w)
  case Nil
  then show ?case by simp
next
  case (Cons r recs)
  obtain status timestamp where r: "r = (status, timestamp)"
    by (cases r)
  with Cons.prems have sid: "PlayerStatus.m_SteamID status = sid"
    and near: "\<bar>stored_connection_time w sid - m_ConnectionTime status\<bar> < 2 * ticks_per_second X"
    by simp_all
  let ?w' = "fst (OnPlayerStatus X w status timestamp)"
  have keep: "stored_connection_time ?w' sid = stored_connection_time w sid"
    using OnPlayerStatus_stored [of X w status timestamp] sid near by simp
  have "stored_trace X ?w' sid recs = replicate (length recs) (stored_connection_time ?w' sid)"
    using Cons.IH [of ?w'] Cons.prems keep by simp
  then show ?case
    using keep by (simp add: r Let_def)
qed


text \<open>
  C1, as amended. A status line whose connection time is less than 2 seconds away, in
  either direction, from the one stored for its identifier is applied with the stored
  connection time in place of its own; any other status line is applied as it is.
  Over a run of status lines for one identifier the stored connection time therefore
  never moves by less than 2 seconds: each stored value equals the one before it or
  differs from it by 2 seconds or more. It stays constant for as long as every reading
  is less than 2 seconds away from the stored value.
\<close>

theorem PlayerStatus_jitter_suppression:
  "map_option m_Status
       (FindPlayer (fst (OnConsoleLineParsed X w (ServerStatusPlayerLine status timestamp)))
          (PlayerStatus.m_SteamID status))
     = Some (if \<bar>stored_connection_time w (PlayerStatus.m_SteamID status) - m_ConnectionTime status\<bar>
                  < 2 * ticks_per_second X
             then status\<lparr> m_ConnectionTime :=
                            stored_connection_time w (PlayerStatus.m_SteamID status) \<rparr>
             else status)
   \<and> ((\<forall>r\<in>set recs. PlayerStatus.m_SteamID (fst r) = sid) \<longrightarrow>
        successively (\<lambda>a b. b = a \<or> 2 * ticks_per_second X \<le> \<bar>b - a\<bar>)
          (stored_connection_time w sid # stored_trace X w sid recs))
   \<and> ((\<forall>r\<in>set recs. PlayerStatus.m_SteamID (fst r) = sid
          \<and> \<bar>stored_connection_time w sid - m_ConnectionTime (fst r)\<bar> < 2 * ticks_per_second X) \<longrightarrow>
        stored_trace X w sid recs = replicate (length recs) (stored_connection_time w sid))"
proof (intro conjI impI)
  show "map_option m_Status
       (FindPlayer (fst (OnConsoleLineParsed X w (ServerStatusPlayerLine status timestamp)))
          (PlayerStatus.m_SteamID status))
     = Some (if \<bar>stored_connection_time w (PlayerStatus.m_SteamID status) - m_ConnectionTime status\<bar>
                  < 2 * ticks_per_second X
             then status\<lparr> m_ConnectionTime :=
                            stored_connection_time w (PlayerStatus.m_SteamID status) \<rparr>
             else status)"
    by (simp add: OnPlayerStatus_record SetStatus_def Let_def)
next
  assume "\<forall>r\<in>set recs. PlayerStatus.m_SteamID (fst r) = sid"
  then show "successively (\<lambda>a b. b = a \<or> 2 * ticks_per_second X \<le> \<bar>b - a\<bar>)
          (stored_connection_time w sid # stored_trace X w sid recs)"
    by (rule stored_trace_jumps)
next
  assume "\<forall>r\<in>set recs. PlayerStatus.m_SteamID (fst r) = sid
          \<and> \<bar>stored_connection_time w sid - m_ConnectionTime (fst r)\<bar> < 2 * ticks_per_second X"
  then show "stored_trace X w sid recs = replicate (length recs) (stored_connection_time w sid)"
    by (rule stored_trace_constant)
qed

theorem PlayerStatus_jitter_suppression_witness:
  "stored_connection_time world_status_only 7 = 5000
   \<and> map_option m_Status
        (FindPlayer (fst (OnConsoleLineParsed decls1000 world_status_only
                            (ServerStatusPlayerLine (status_of ''bob'' 7 6000) 61000))) 7)
       = Some (status_of ''bob'' 7 5000)
   \<and> map_option m_Status
        (FindPlayer (fst (OnConsoleLineParsed decls1000 world_status_only
                            (ServerStatusPlayerLine (status_of ''bob'' 7 7000) 61000))) 7)
       = Some (status_of ''bob'' 7 7000)
   \<and> successively (\<lambda>a b. b = a \<or> 2 * ticks_per_second decls1000 \<le> \<bar>b - a\<bar>)
        (stored_connection_time world_status_only 7
           # stored_trace decls1000 world_status_only 7 jitter_run)
   \<and> stored_trace decls1000 world_status_only 7 steady_run = [5000, 5000]"
proof -
  have old: "stored_connection_time world_status_only 7 = 5000"
    by code_simp
  have tps: "ticks_per_second decls1000 = 1000"
    by (simp add: decls1000_def)
  have same: "\<forall>r\<in>set jitter_run. PlayerStatus.m_SteamID (fst r) = 7"
    by (simp add: jitter_run_def status_of_def)
  have near: "\<forall>r\<in>set steady_run. PlayerStatus.m_SteamID (fst r) = 7
          \<and> \<bar>stored_connection_time world_status_only 7 - m_ConnectionTime (fst r)\<bar>
               < 2 * ticks_per_second decls1000"
    by (simp add: steady_run_def status_of_def old tps)
  have kept: "map_option m_Status
        (FindPlayer (fst (OnConsoleLineParsed decls1000 world_status_only
                            (ServerStatusPlayerLine (status_of ''bob'' 7 6000) 61000))) 7)
       = Some (status_of ''bob'' 7 5000)"
    using PlayerStatus_jitter_suppression
            [where X = decls1000 and w = world_status_only and status = "status_of ''bob'' 7 6000"
               and timestamp = 61000 and recs = "[]" and sid = 7]
    by (simp add: old tps status_of_def)
  have replaced: "map_option m_Status
        (FindPlayer (fst (OnConsoleLineParsed decls1000 world_status_only
                            (ServerStatusPlayerLine (status_of ''bob'' 7 7000) 61000))) 7)
       = Some (status_of ''bob'' 7 7000)"
    using PlayerStatus_jitter_suppression
            [where X = decls1000 and w = world_status_only and status = "status_of ''bob'' 7 7000"
               and timestamp = 61000 and recs = "[]" and sid = 7]
    by (simp add: old tps status_of_def)
  have jumps: "successively (\<lambda>a b. b = a \<or> 2 * ticks_per_second decls1000 \<le> \<bar>b - a\<bar>)
        (stored_connection_time world_status_only 7
           # stored_trace decls1000 world_status_only 7 jitter_run)"
    using PlayerStatus_jitter_suppression
            [where X = decls1000 and w = world_status_only and recs = jitter_run and sid = 7]
          same
    by blast
  have "stored_trace decls1000 world_status_only 7 steady_run
          = replicate (length steady_run) (stored_connection_time world_status_only 7)"
    using PlayerStatus_jitter_suppression
            [where X = decls1000 and w = world_status_only and recs = steady_run and sid = 7]
          near
    by blast
  then have steady: "stored_trace decls1000 world_status_only 7 steady_run = [5000, 5000]"
    by (simp add: old steady_run_def)
  from old kept replaced jumps steady show ?thesis
    by blast
qed

text \<open>
  C1 as stated fails in its second sentence. Five status lines for one identifier
  whose readings move by one second at a time (10 s, 11 s, 12 s, 11 s, 10 s on a clock of
  1000 ticks per second) leave the stored connection time at 10 s, 10 s, 12 s, 12 s and
  10 s: it goes up and comes back down.
\<close>

theorem PlayerStatus_oscillation_counterexample:
  "2 * ticks_per_second decls1000 = 2000
   \<and> map (\<lambda>r. (PlayerStatus.m_SteamID (fst r), m_ConnectionTime (fst r))) jitter_run
        = [(7, 10000), (7, 11000), (7, 12000), (7, 11000), (7, 10000)]
   \<and> successively (\<lambda>a b. \<bar>b - a\<bar> < 2 * ticks_per_second decls1000)
        (map (\<lambda>r. m_ConnectionTime (fst r)) jitter_run)
   \<and> stored_trace decls1000 (WorldState_ctor lazy_settings) 7 jitter_run
        = [10000, 10000, 12000, 12000, 10000]"
  by code_simp

section \<open>Lobby slots\<close>

lemma slots_modify_player:
  "m_CurrentLobbyMembers (modify_player sid f w) = m_CurrentLobbyMembers w"
  "m_PendingLobbyMembers (modify_player sid f w) = m_PendingLobbyMembers w"
  by (simp_all add: modify_player_def)

lemma slots_FindOrCreatePlayer:
  "m_CurrentLobbyMembers (fst (FindOrCreatePlayer w sid)) = m_CurrentLobbyMembers w"
  "m_PendingLobbyMembers (fst (FindOrCreatePlayer w sid)) = m_PendingLobbyMembers w"
  by (simp_all add: FindOrCreatePlayer_def PlayerExtraData_ctor_def split: option.splits)

lemma slots_OnLobbyMember:
  "m_CurrentLobbyMembers (OnLobbyMember w member)
     = (if \<not> m_Pending member \<and> m_Index member < length (m_CurrentLobbyMembers w)
        then (m_CurrentLobbyMembers w)[m_Index member := member]
        else m_CurrentLobbyMembers w)"
  "m_PendingLobbyMembers (OnLobbyMember w member)
     = (if m_Pending member \<and> m_Index member < length (m_PendingLobbyMembers w)
        then (m_PendingLobbyMembers w)[m_Index member := member]
        else m_PendingLobbyMembers w)"
proof -
  define w1 where "w1 =
            (if m_Pending member
             then (if m_Index member < length (m_PendingLobbyMembers w)
                   then w\<lparr> m_PendingLobbyMembers :=
                            (m_PendingLobbyMembers w)[m_Index member := member] \<rparr>
                   else w)
             else (if m_Index member < length (m_CurrentLobbyMembers w)
                   then w\<lparr> m_CurrentLobbyMembers :=
                            (m_CurrentLobbyMembers w)[m_Index member := member] \<rparr>
                   else w))"
  have eq: "OnLobbyMember w member
      = modify_player (LobbyMember.m_SteamID member)
           (\<lambda>p. p\<lparr> PlayerExtraData.m_Team := (if LobbyMember.m_Team member = Defenders then Red else Blue) \<rparr>)
           (fst (FindOrCreatePlayer w1 (LobbyMember.m_SteamID member)))"
    by (simp add: OnLobbyMember_def Let_def w1_def split: prod.splits)
  show "m_CurrentLobbyMembers (OnLobbyMember w member)
     = (if \<not> m_Pending member \<and> m_Index member < length (m_CurrentLobbyMembers w)
        then (m_CurrentLobbyMembers w)[m_Index member := member]
        else m_CurrentLobbyMembers w)"
    by (simp add: eq slots_modify_player slots_FindOrCreatePlayer) (simp add: w1_def)
  show "m_PendingLobbyMembers (OnLobbyMember w member)
     = (if m_Pending member \<and> m_Index member < length (m_PendingLobbyMembers w)
        then (m_PendingLobbyMembers w)[m_Index member := member]
        else m_PendingLobbyMembers w)"
    by (simp add: eq slots_modify_player slots_FindOrCreatePlayer) (simp add: w1_def)
qed

lemma slots_OnKillNotification:
  "m_CurrentLobbyMembers (OnKillNotification w a v) = m_CurrentLobbyMembers w"
  "m_PendingLobbyMembers (OnKillNotification w a v) = m_PendingLobbyMembers w"
  by (simp_all add: OnKillNotification_def Let_def slots_modify_player slots_FindOrCreatePlayer
        split: option.splits)

lemma slots_OnPlayerStatus:
  "m_CurrentLobbyMembers (fst (OnPlayerStatus X w status timestamp)) = m_CurrentLobbyMembers w"
  "m_PendingLobbyMembers (fst (OnPlayerStatus X w status timestamp)) = m_PendingLobbyMembers w"
proof -
  obtain w1 playerData where foc: "FindOrCreatePlayer w (PlayerStatus.m_SteamID status) = (w1, playerData)"
    by (cases "FindOrCreatePlayer w (PlayerStatus.m_SteamID status)")
  have w1: "m_CurrentLobbyMembers w1 = m_CurrentLobbyMembers w"
      "m_PendingLobbyMembers w1 = m_PendingLobbyMembers w"
    using slots_FindOrCreatePlayer [of w "PlayerStatus.m_SteamID status"] foc by simp_all
  show "m_CurrentLobbyMembers (fst (OnPlayerStatus X w status timestamp)) = m_CurrentLobbyMembers w"
    by (simp add: OnPlayerStatus_def foc Let_def slots_modify_player w1)
  show "m_PendingLobbyMembers (fst (OnPlayerStatus X w status timestamp)) = m_PendingLobbyMembers w"
    by (simp add: OnPlayerStatus_def foc Let_def slots_modify_player w1)
qed

lemma slots_OnConfigExecLineParsed:
  "m_CurrentLobbyMembers (fst (OnConfigExecLineParsed w cfgName)) = m_CurrentLobbyMembers w"
  "m_PendingLobbyMembers (fst (OnConfigExecLineParsed w cfgName)) = m_PendingLobbyMembers w"
  by (simp_all add: OnConfigExecLineParsed_def Let_def)

lemma slot_sizes_step:
  "\<not> is_LobbyHeader l \<Longrightarrow>
   (length (m_CurrentLobbyMembers (fst (OnConsoleLineParsed X w l))) = 0
      \<or> length (m_CurrentLobbyMembers (fst (OnConsoleLineParsed X w l)))
           = length (m_CurrentLobbyMembers w))
   \<and> (length (m_PendingLobbyMembers (fst (OnConsoleLineParsed X w l))) = 0
      \<or> length (m_PendingLobbyMembers (fst (OnConsoleLineParsed X w l)))
           = length (m_PendingLobbyMembers w))"
proof (cases l)
  case (SVCUserMessageLine m)
  then show ?thesis by (cases m) simp_all
next
  case (LobbyChangedLine c)
  then show ?thesis by (simp add: ClearLobbyState_def Let_def)
qed (simp_all add: slots_OnLobbyMember slots_OnKillNotification slots_OnPlayerStatus
       slots_OnConfigExecLineParsed slots_modify_player slots_FindOrCreatePlayer
       split: option.splits)

lemma slot_sizes_run:
  "\<forall>l\<in>set ls. \<not> is_LobbyHeader l \<Longrightarrow>
   (length (m_CurrentLobbyMembers (OnConsoleLines X w ls)) = 0
      \<or> length (m_CurrentLobbyMembers (OnConsoleLines X w ls)) = length (m_CurrentLobbyMembers w))
   \<and> (length (m_PendingLobbyMembers (OnConsoleLines X w ls)) = 0
      \<or> length (m_PendingLobbyMembers (OnConsoleLines X w ls)) = length (m_PendingLobbyMembers w))"
proof (induction ls arbitrary: w)
  case Nil
  then show ?case by simp
next
  case (Cons l ls)
  from Cons.prems have l: "\<not> is_LobbyHeader l" and ls: "\<forall>l\<in>set ls. \<not> is_LobbyHeader l"
    by simp_all
  from slot_sizes_step [OF l, of X w] Cons.IH [OF ls, of "fst (OnConsoleLineParsed X w l)"]
  show ?case
    by auto
qed



text \<open>
  C5. A lobby-member line writes the member into the pending sequence if it is
  flagged pending and into the confirmed sequence otherwise, at its declared index,
  and only if that index is less than the sequence's current size; with an index at or
  beyond the size neither sequence changes. The sizes come from the lobby header: a
  header gives the two sequences the sizes it declares, and no run of other lines
  changes a size except to empty the sequence (the resets of a lobby-status failure
  and of a lobby creation). So after a header that declares a size, and whatever other
  lines follow it, a member line with an index at or beyond that size writes no slot.
\<close>

theorem LobbyMember_write_in_bounds:
  "m_CurrentLobbyMembers (fst (OnConsoleLineParsed X w (LobbyMemberLine member)))
     = (if \<not> m_Pending member \<and> m_Index member < length (m_CurrentLobbyMembers w)
        then (m_CurrentLobbyMembers w)[m_Index member := member]
        else m_CurrentLobbyMembers w)
   \<and> m_PendingLobbyMembers (fst (OnConsoleLineParsed X w (LobbyMemberLine member)))
     = (if m_Pending member \<and> m_Index member < length (m_PendingLobbyMembers w)
        then (m_PendingLobbyMembers w)[m_Index member := member]
        else m_PendingLobbyMembers w)
   \<and> length (m_CurrentLobbyMembers (fst (OnConsoleLineParsed X w (LobbyHeaderLine n k)))) = n
   \<and> length (m_PendingLobbyMembers (fst (OnConsoleLineParsed X w (LobbyHeaderLine n k)))) = k
   \<and> ((\<forall>l\<in>set ls. \<not> is_LobbyHeader l) \<longrightarrow>
        (length (m_CurrentLobbyMembers (OnConsoleLines X w ls)) = 0
           \<or> length (m_CurrentLobbyMembers (OnConsoleLines X w ls))
                = length (m_CurrentLobbyMembers w))
        \<and> (length (m_PendingLobbyMembers (OnConsoleLines X w ls)) = 0
           \<or> length (m_PendingLobbyMembers (OnConsoleLines X w ls))
                = length (m_PendingLobbyMembers w)))
   \<and> ((\<forall>l\<in>set ls. \<not> is_LobbyHeader l) \<and> n \<le> m_Index member \<longrightarrow>
        m_CurrentLobbyMembers
            (OnConsoleLines X w (LobbyHeaderLine n k # ls @ [LobbyMemberLine member]))
          = m_CurrentLobbyMembers (OnConsoleLines X w (LobbyHeaderLine n k # ls)))
   \<and> ((\<forall>l\<in>set ls. \<not> is_LobbyHeader l) \<and> k \<le> m_Index member \<longrightarrow>
        m_PendingLobbyMembers
            (OnConsoleLines X w (LobbyHeaderLine n k # ls @ [LobbyMemberLine member]))
          = m_PendingLobbyMembers (OnConsoleLines X w (LobbyHeaderLine n k # ls)))"
proof -
  have app: "OnConsoleLines X v (ls @ [l]) = fst (OnConsoleLineParsed X (OnConsoleLines X v ls) l)"
    for v l
    by (induction ls arbitrary: v) simp_all
  let ?h = "fst (OnConsoleLineParsed X w (LobbyHeaderLine n k))"
  have sizes: "length (m_CurrentLobbyMembers ?h) = n" "length (m_PendingLobbyMembers ?h) = k"
    by (simp_all add: resize_def)
  have confirmed: "m_CurrentLobbyMembers
            (OnConsoleLines X w (LobbyHeaderLine n k # ls @ [LobbyMemberLine member]))
          = m_CurrentLobbyMembers (OnConsoleLines X w (LobbyHeaderLine n k # ls))"
    if "\<forall>l\<in>set ls. \<not> is_LobbyHeader l" "n \<le> m_Index member"
  proof -
    from slot_sizes_run [OF that(1), of X ?h] sizes(1) that(2)
    have "\<not> m_Index member < length (m_CurrentLobbyMembers (OnConsoleLines X ?h ls))"
      by auto
    then show ?thesis
      by (simp add: app slots_OnLobbyMember del: OnConsoleLineParsed.simps(1))
  qed
  have pending: "m_PendingLobbyMembers
            (OnConsoleLines X w (LobbyHeaderLine n k # ls @ [LobbyMemberLine member]))
          = m_PendingLobbyMembers (OnConsoleLines X w (LobbyHeaderLine n k # ls))"
    if "\<forall>l\<in>set ls. \<not> is_LobbyHeader l" "k \<le> m_Index member"
  proof -
    from slot_sizes_run [OF that(1), of X ?h] sizes(2) that(2)
    have "\<not> m_Index member < length (m_PendingLobbyMembers (OnConsoleLines X ?h ls))"
      by auto
    then show ?thesis
      by (simp add: app slots_OnLobbyMember del: OnConsoleLineParsed.simps(1))
  qed
  show ?thesis
    using sizes confirmed pending slot_sizes_run [of ls X w]
    by (simp add: slots_OnLobbyMember del: OnConsoleLineParsed.simps(1))
qed


theorem LobbyMember_write_in_bounds_witness:
  "m_CurrentLobbyMembers world_header = [empty_slot, empty_slot]
   \<and> m_PendingLobbyMembers world_header = [empty_slot]
   \<and> m_CurrentLobbyMembers
        (fst (OnConsoleLineParsed decls1000 world_header (LobbyMemberLine (member_of 1 8 False))))
       = [empty_slot, member_of 1 8 False]
   \<and> m_PendingLobbyMembers
        (fst (OnConsoleLineParsed decls1000 world_header (LobbyMemberLine (member_of 1 8 True))))
       = [empty_slot]
   \<and> m_CurrentLobbyMembers
        (OnConsoleLines decls1000 (WorldState_ctor lazy_settings)
           (LobbyHeaderLine 2 1 # [ServerStatusPlayerLine (status_of ''bob'' 7 5000) 60000]
              @ [LobbyMemberLine (member_of 2 8 False)]))
       = [empty_slot, empty_slot]"
proof -
  have slots: "m_CurrentLobbyMembers world_header = [empty_slot, empty_slot]"
      "m_PendingLobbyMembers world_header = [empty_slot]"
    by code_simp+
  have inside: "\<not> m_Pending (member_of 1 8 False)
       \<and> m_Index (member_of 1 8 False) < length (m_CurrentLobbyMembers world_header)"
    by (simp add: slots member_of_def)
  have outside: "\<not> (m_Pending (member_of 1 8 True)
       \<and> m_Index (member_of 1 8 True) < length (m_PendingLobbyMembers world_header))"
    by (simp add: slots member_of_def)
  have no_header: "\<forall>l\<in>set [ServerStatusPlayerLine (status_of ''bob'' 7 5000) 60000]. \<not> is_LobbyHeader l"
    by simp
  have beyond: "(2::nat) \<le> m_Index (member_of 2 8 False)"
    by (simp add: member_of_def)
  note thm1 = LobbyMember_write_in_bounds
                [where X = decls1000 and w = world_header and member = "member_of 1 8 False"
                   and ls = "[]" and n = 0 and k = 0]
  from thm1 inside
  have written: "m_CurrentLobbyMembers
        (fst (OnConsoleLineParsed decls1000 world_header (LobbyMemberLine (member_of 1 8 False))))
       = (m_CurrentLobbyMembers world_header)[m_Index (member_of 1 8 False) := member_of 1 8 False]"
    by presburger
  then have a: "m_CurrentLobbyMembers
        (fst (OnConsoleLineParsed decls1000 world_header (LobbyMemberLine (member_of 1 8 False))))
       = [empty_slot, member_of 1 8 False]"
    by (simp add: slots) (simp add: member_of_def)
  note thm2 = LobbyMember_write_in_bounds
                [where X = decls1000 and w = world_header and member = "member_of 1 8 True"
                   and ls = "[]" and n = 0 and k = 0]
  from thm2 outside
  have "m_PendingLobbyMembers
        (fst (OnConsoleLineParsed decls1000 world_header (LobbyMemberLine (member_of 1 8 True))))
       = m_PendingLobbyMembers world_header"
    by presburger
  then have b: "m_PendingLobbyMembers
        (fst (OnConsoleLineParsed decls1000 world_header (LobbyMemberLine (member_of 1 8 True))))
       = [empty_slot]"
    by (simp add: slots)
  note thm3 = LobbyMember_write_in_bounds
                [where X = decls1000 and w = "WorldState_ctor lazy_settings"
                   and member = "member_of 2 8 False"
                   and ls = "[ServerStatusPlayerLine (status_of ''bob'' 7 5000) 60000]"
                   and n = 2 and k = 1]
  from thm3 no_header beyond
  have "m_CurrentLobbyMembers
        (OnConsoleLines decls1000 (WorldState_ctor lazy_settings)
           (LobbyHeaderLine 2 1 # [ServerStatusPlayerLine (status_of ''bob'' 7 5000) 60000]
              @ [LobbyMemberLine (member_of 2 8 False)]))
       = m_CurrentLobbyMembers
        (OnConsoleLines decls1000 (WorldState_ctor lazy_settings)
           (LobbyHeaderLine 2 1 # [ServerStatusPlayerLine (status_of ''bob'' 7 5000) 60000]))"
    by blast
  also have "\<dots> = [empty_slot, empty_slot]"
    by code_simp
  finally show ?thesis
    using slots a b by blast
qed

section \<open>Lobby member iteration\<close>

lemma GetLobbyMembers_loop_char:
  "GetLobbyMembers_loop X w skip ms = (ys, r) \<Longrightarrow>
   list_all2 (denotes w) ys
     (takeWhile (has_record w) (filter (\<lambda>m. IsValid X m \<and> \<not> skip m) ms))
   \<and> r = (if list_all (has_record w) (filter (\<lambda>m. IsValid X m \<and> \<not> skip m) ms)
          then None else Some missing_player)"
proof (induction ms arbitrary: ys r)
  case Nil
  then show ?case by simp
next
  case (Cons m ms)
  show ?case
  proof (cases "IsValid X m \<and> \<not> skip m")
    case False
    with Cons.prems have run: "GetLobbyMembers_loop X w skip ms = (ys, r)"
      by (auto split: if_splits)
    from Cons.IH [OF run] False show ?thesis
      by auto
  next
    case True
    show ?thesis
    proof (cases "FindPlayer w (LobbyMember.m_SteamID m)")
      case None
      with True Cons.prems show ?thesis
        by (simp add: GetPlayer_def FindPlayer_def has_record_def missing_player_def)
    next
      case (Some found)
      obtain ys' r' where rest: "GetLobbyMembers_loop X w skip ms = (ys', r')"
        by (cases "GetLobbyMembers_loop X w skip ms")
      with True Some Cons.prems have "ys = found # ys'" "r = r'"
        by (simp_all add: GetPlayer_def FindPlayer_def)
      with Cons.IH [OF rest] True Some show ?thesis
        by (simp add: has_record_def denotes_def)
    qed
  qed
qed

lemma GetLobbyMembers_char:
  "list_all2 (denotes w) (fst (GetLobbyMembers X w))
     (takeWhile (has_record w) (confirmed_occupants X w @ pending_occupants X w))
   \<and> snd (GetLobbyMembers X w)
       = (if list_all (has_record w) (confirmed_occupants X w @ pending_occupants X w)
          then None else Some missing_player)"
proof -
  let ?skip = "\<lambda>member. list_ex (\<lambda>member2. LobbyMember.m_SteamID member = LobbyMember.m_SteamID member2)
                                   (m_CurrentLobbyMembers w)"
  obtain ys r where first: "GetLobbyMembers_loop X w (\<lambda>member. False) (m_CurrentLobbyMembers w) = (ys, r)"
    by (cases "GetLobbyMembers_loop X w (\<lambda>member. False) (m_CurrentLobbyMembers w)")
  obtain zs r2 where second: "GetLobbyMembers_loop X w ?skip (m_PendingLobbyMembers w) = (zs, r2)"
    by (cases "GetLobbyMembers_loop X w ?skip (m_PendingLobbyMembers w)")
  have pend: "filter (\<lambda>m. IsValid X m \<and> \<not> ?skip m) (m_PendingLobbyMembers w) = pending_occupants X w"
    by (auto simp: pending_occupants_def list_ex_iff intro!: filter_cong)
  note c1 = GetLobbyMembers_loop_char [OF first, simplified, folded confirmed_occupants_def]
  note c2 = GetLobbyMembers_loop_char [OF second, unfolded pend]
  show ?thesis
  proof (cases "list_all (has_record w) (confirmed_occupants X w)")
    case True
    then have tw: "takeWhile (has_record w) (confirmed_occupants X w @ pending_occupants X w)
        = confirmed_occupants X w @ takeWhile (has_record w) (pending_occupants X w)"
      by (simp add: list_all_iff)
    from True c1 have "r = None" by simp
    then have res: "GetLobbyMembers X w = (ys @ zs, r2)"
      by (simp add: GetLobbyMembers_def first second)
    from True have "takeWhile (has_record w) (confirmed_occupants X w) = confirmed_occupants X w"
      by (simp add: list_all_iff)
    with c1 have "list_all2 (denotes w) ys (confirmed_occupants X w)"
      by simp
    with c2 have "list_all2 (denotes w) (ys @ zs)
        (confirmed_occupants X w @ takeWhile (has_record w) (pending_occupants X w))"
      by (simp add: list_all2_appendI)
    with c2 True show ?thesis
      by (simp add: res tw)
  next
    case False
    then obtain m where m: "m \<in> set (confirmed_occupants X w)" "\<not> has_record w m"
      by (auto simp: list_all_iff)
    then have tw: "takeWhile (has_record w) (confirmed_occupants X w @ pending_occupants X w)
        = takeWhile (has_record w) (confirmed_occupants X w)"
      by simp
    from False c1 have "r = Some missing_player" by simp
    then have res: "GetLobbyMembers X w = (ys, Some missing_player)"
      by (simp add: GetLobbyMembers_def first)
    with c1 False show ?thesis
      by (simp add: tw)
  qed
qed


lemma denotes_in_table: "denotes w p m \<Longrightarrow> (LobbyMember.m_SteamID m, p) \<in> set (m_CurrentPlayerData w)"
  by (simp add: denotes_def FindPlayer_def map_of_SomeD)

lemma distinct_map_takeWhile: "distinct (map f xs) \<Longrightarrow> distinct (map f (takeWhile P xs))"
  by (induction xs) (auto dest: set_takeWhileD)

lemma denotes_ids:
  "list_all2 (denotes w) ys ms \<Longrightarrow> table_ok w \<Longrightarrow>
   map GetSteamID ys = map LobbyMember.m_SteamID ms"
proof (induction ys ms rule: list_all2_induct)
  case Nil
  then show ?case by simp
next
  case (Cons p ys m ms)
  from Cons.hyps(1) have "(LobbyMember.m_SteamID m, p) \<in> set (m_CurrentPlayerData w)"
    by (rule denotes_in_table)
  with Cons.prems have "GetSteamID p = LobbyMember.m_SteamID m"
    by (auto simp: table_ok_def list_all_iff)
  with Cons show ?case by simp
qed

lemma occupants_distinct:
  assumes "distinct (map LobbyMember.m_SteamID (confirmed_occupants X w))"
    and "distinct (map LobbyMember.m_SteamID (filter (IsValid X) (m_PendingLobbyMembers w)))"
  shows "distinct (map LobbyMember.m_SteamID (confirmed_occupants X w @ pending_occupants X w))"
proof -
  have eq: "pending_occupants X w
          = filter (\<lambda>member. LobbyMember.m_SteamID member
                      \<notin> LobbyMember.m_SteamID ` set (m_CurrentLobbyMembers w))
              (filter (IsValid X) (m_PendingLobbyMembers w))"
    by (auto simp: pending_occupants_def intro!: filter_cong)
  have "distinct (map LobbyMember.m_SteamID (pending_occupants X w))"
    unfolding eq using assms(2) by (rule distinct_map_filter)
  moreover have "LobbyMember.m_SteamID ` set (confirmed_occupants X w)
                   \<inter> LobbyMember.m_SteamID ` set (pending_occupants X w) = {}"
    by (auto simp: confirmed_occupants_def pending_occupants_def) (metis imageI)
  ultimately show ?thesis
    using assms(1) by simp
qed

lemma table_ok_cong: "m_CurrentPlayerData w' = m_CurrentPlayerData w \<Longrightarrow> table_ok w' = table_ok w"
  by (simp add: table_ok_def)

lemma table_ok_modify_player:
  "table_ok w \<Longrightarrow> (\<And>p. GetSteamID p = sid \<Longrightarrow> GetSteamID (f p) = sid) \<Longrightarrow>
   table_ok (modify_player sid f w)"
  by (fastforce simp: table_ok_def modify_player_def list_all_iff split: if_splits)

lemma table_ok_FindOrCreatePlayer: "table_ok w \<Longrightarrow> table_ok (fst (FindOrCreatePlayer w sid))"
  by (auto simp: table_ok_def FindOrCreatePlayer_def PlayerExtraData_ctor_def
        PlayerExtraData_init_def GetSteamID_def list_all_iff split: option.splits)

lemma table_ok_OnPlayerStatus: "table_ok w \<Longrightarrow> table_ok (fst (OnPlayerStatus X w status timestamp))"
proof -
  assume ok: "table_ok w"
  obtain w1 playerData where foc: "FindOrCreatePlayer w (PlayerStatus.m_SteamID status) = (w1, playerData)"
    by (cases "FindOrCreatePlayer w (PlayerStatus.m_SteamID status)")
  from table_ok_FindOrCreatePlayer [OF ok, of "PlayerStatus.m_SteamID status"] foc
  have ok1: "table_ok w1" by simp
  have "table_ok (modify_player (PlayerStatus.m_SteamID status) (SetStatus X ns timestamp) w1)"
    if "PlayerStatus.m_SteamID ns = PlayerStatus.m_SteamID status" for ns
    using ok1 by (rule table_ok_modify_player) (simp add: SetStatus_def GetSteamID_def Let_def that)
  then show ?thesis
    by (simp add: OnPlayerStatus_def foc Let_def table_ok_def)
qed

lemma table_ok_OnLobbyMember: "table_ok w \<Longrightarrow> table_ok (OnLobbyMember w member)"
proof -
  assume ok: "table_ok w"
  define w1 where "w1 =
            (if m_Pending member
             then (if m_Index member < length (m_PendingLobbyMembers w)
                   then w\<lparr> m_PendingLobbyMembers :=
                            (m_PendingLobbyMembers w)[m_Index member := member] \<rparr>
                   else w)
             else (if m_Index member < length (m_CurrentLobbyMembers w)
                   then w\<lparr> m_CurrentLobbyMembers :=
                            (m_CurrentLobbyMembers w)[m_Index member := member] \<rparr>
                   else w))"
  have eq: "OnLobbyMember w member
      = modify_player (LobbyMember.m_SteamID member)
           (\<lambda>p. p\<lparr> PlayerExtraData.m_Team := (if LobbyMember.m_Team member = Defenders then Red else Blue) \<rparr>)
           (fst (FindOrCreatePlayer w1 (LobbyMember.m_SteamID member)))"
    by (simp add: OnLobbyMember_def Let_def w1_def split: prod.splits)
  have "table_ok w1"
    using ok by (simp add: w1_def table_ok_def)
  then have "table_ok (fst (FindOrCreatePlayer w1 (LobbyMember.m_SteamID member)))"
    by (rule table_ok_FindOrCreatePlayer)
  then show ?thesis
    unfolding eq by (rule table_ok_modify_player) (simp add: GetSteamID_def)
qed

lemma table_ok_OnKillNotification: "table_ok w \<Longrightarrow> table_ok (OnKillNotification w a v)"
  by (auto simp: OnKillNotification_def Let_def GetSteamID_def split: option.splits
        intro!: table_ok_modify_player table_ok_FindOrCreatePlayer)

lemma table_ok_step: "table_ok w \<Longrightarrow> table_ok (fst (OnConsoleLineParsed X w l))"
proof (cases l)
  case (SVCUserMessageLine m)
  assume "table_ok w"
  with SVCUserMessageLine show ?thesis by (cases m) (simp_all add: table_ok_def)
next
  case (LobbyChangedLine c)
  assume "table_ok w"
  with LobbyChangedLine show ?thesis
    by (auto simp: table_ok_def ClearLobbyState_def Let_def GetSteamID_def list_all_iff)
next
  case (PingLine n pg ts)
  assume "table_ok w"
  with PingLine show ?thesis
    by (auto simp: SetPing_def GetSteamID_def split: option.splits
          intro!: table_ok_modify_player table_ok_FindOrCreatePlayer)
next
  case (ServerStatusShortPlayerLine n ci)
  assume "table_ok w"
  with ServerStatusShortPlayerLine show ?thesis
    by (auto simp: GetSteamID_def split: option.splits
          intro!: table_ok_modify_player table_ok_FindOrCreatePlayer)
next
  case (ConfigExecLine c)
  assume "table_ok w"
  with ConfigExecLine show ?thesis
    by (simp add: OnConfigExecLineParsed_def Let_def table_ok_def)
qed (simp_all add: table_ok_OnPlayerStatus table_ok_OnLobbyMember table_ok_OnKillNotification,
     simp_all add: table_ok_def split: option.splits)

lemma table_ok_run: "table_ok w \<Longrightarrow> table_ok (OnConsoleLines X w ls)"
  by (induction ls arbitrary: w) (simp_all add: table_ok_step)

lemma table_ok_session: "table_ok (OnConsoleLines X (WorldState_ctor settings) ls)"
  by (rule table_ok_run) (simp add: table_ok_def WorldState_ctor_def)



text \<open>
  C6, as amended. The iteration yields the players of the valid confirmed slots, in
  slot order, and then the players of the valid pending slots whose identifier is the
  identifier of no confirmed slot; an iteration that a missing player ends yields a
  prefix of that sequence. So no yielded pending entry shares its identifier with a
  confirmed slot. No two yielded entries share an identifier provided no identifier
  occurs twice among the valid confirmed slots or twice among the valid pending slots
  (and the table stores every record under its own identifier).
\<close>

theorem GetLobbyMembers_order_and_dedup:
  "(snd (GetLobbyMembers X w) = None \<longrightarrow>
      list_all2 (denotes w) (fst (GetLobbyMembers X w))
        (filter (IsValid X) (m_CurrentLobbyMembers w)
         @ filter (\<lambda>member. IsValid X member
                     \<and> LobbyMember.m_SteamID member
                         \<notin> LobbyMember.m_SteamID ` set (m_CurrentLobbyMembers w))
             (m_PendingLobbyMembers w)))
   \<and> (\<exists>n. list_all2 (denotes w) (fst (GetLobbyMembers X w))
              (take n (confirmed_occupants X w @ pending_occupants X w)))
   \<and> (table_ok w
        \<and> distinct (map LobbyMember.m_SteamID (filter (IsValid X) (m_CurrentLobbyMembers w)))
        \<and> distinct (map LobbyMember.m_SteamID (filter (IsValid X) (m_PendingLobbyMembers w)))
       \<longrightarrow> distinct (map GetSteamID (fst (GetLobbyMembers X w))))"
proof (intro conjI impI)
  note char = GetLobbyMembers_char [of w X]
  let ?all = "confirmed_occupants X w @ pending_occupants X w"
  from char have tw: "list_all2 (denotes w) (fst (GetLobbyMembers X w)) (takeWhile (has_record w) ?all)"
    by simp
  have "list_all2 (denotes w) (fst (GetLobbyMembers X w))
          (take (length (takeWhile (has_record w) ?all)) ?all)"
    by (subst takeWhile_eq_take [symmetric]) (rule tw)
  then show "\<exists>n. list_all2 (denotes w) (fst (GetLobbyMembers X w)) (take n ?all)"
    by (rule exI)
  {
    assume "snd (GetLobbyMembers X w) = None"
    with char have "list_all (has_record w) ?all"
      by (simp split: if_splits)
    then have "takeWhile (has_record w) ?all = ?all"
      by (simp add: list_all_iff)
    with tw have "list_all2 (denotes w) (fst (GetLobbyMembers X w)) ?all"
      by (simp only:)
    then show "list_all2 (denotes w) (fst (GetLobbyMembers X w))
        (filter (IsValid X) (m_CurrentLobbyMembers w)
         @ filter (\<lambda>member. IsValid X member
                     \<and> LobbyMember.m_SteamID member
                         \<notin> LobbyMember.m_SteamID ` set (m_CurrentLobbyMembers w))
             (m_PendingLobbyMembers w))"
      by (simp add: confirmed_occupants_def pending_occupants_def)
  }
  {
    assume a: "table_ok w
        \<and> distinct (map LobbyMember.m_SteamID (filter (IsValid X) (m_CurrentLobbyMembers w)))
        \<and> distinct (map LobbyMember.m_SteamID (filter (IsValid X) (m_PendingLobbyMembers w)))"
    then have "distinct (map LobbyMember.m_SteamID ?all)"
      using occupants_distinct [of X w] by (simp add: confirmed_occupants_def)
    then have "distinct (map LobbyMember.m_SteamID (takeWhile (has_record w) ?all))"
      by (rule distinct_map_takeWhile)
    moreover from a tw have "map GetSteamID (fst (GetLobbyMembers X w))
        = map LobbyMember.m_SteamID (takeWhile (has_record w) ?all)"
      by (simp add: denotes_ids)
    ultimately show "distinct (map GetSteamID (fst (GetLobbyMembers X w)))"
      by simp
  }
qed

theorem GetLobbyMembers_order_and_dedup_witness:
  "map LobbyMember.m_SteamID (m_CurrentLobbyMembers world_lobby) = [7, 8]
   \<and> map LobbyMember.m_SteamID (m_PendingLobbyMembers world_lobby) = [8, 9]
   \<and> snd (GetLobbyMembers decls1000 world_lobby) = None
   \<and> map GetSteamID (fst (GetLobbyMembers decls1000 world_lobby)) = [7, 8, 9]
   \<and> list_all2 (denotes world_lobby) (fst (GetLobbyMembers decls1000 world_lobby))
        (filter (IsValid decls1000) (m_CurrentLobbyMembers world_lobby)
         @ filter (\<lambda>member. IsValid decls1000 member
                     \<and> LobbyMember.m_SteamID member
                         \<notin> LobbyMember.m_SteamID ` set (m_CurrentLobbyMembers world_lobby))
             (m_PendingLobbyMembers world_lobby))
   \<and> distinct (map GetSteamID (fst (GetLobbyMembers decls1000 world_lobby)))"
proof -
  have slots: "map LobbyMember.m_SteamID (m_CurrentLobbyMembers world_lobby) = [7, 8]"
      "map LobbyMember.m_SteamID (m_PendingLobbyMembers world_lobby) = [8, 9]"
    by code_simp+
  have ended: "snd (GetLobbyMembers decls1000 world_lobby) = None"
    by code_simp
  have ids: "map GetSteamID (fst (GetLobbyMembers decls1000 world_lobby)) = [7, 8, 9]"
    by code_simp
  have ok: "table_ok world_lobby"
    unfolding world_lobby_def by (rule table_ok_session)
  have d1: "distinct (map LobbyMember.m_SteamID
              (filter (IsValid decls1000) (m_CurrentLobbyMembers world_lobby)))"
    by code_simp
  have d2: "distinct (map LobbyMember.m_SteamID
              (filter (IsValid decls1000) (m_PendingLobbyMembers world_lobby)))"
    by code_simp
  note inst = GetLobbyMembers_order_and_dedup [of decls1000 world_lobby]
  from inst ended have "list_all2 (denotes world_lobby) (fst (GetLobbyMembers decls1000 world_lobby))
        (filter (IsValid decls1000) (m_CurrentLobbyMembers world_lobby)
         @ filter (\<lambda>member. IsValid decls1000 member
                     \<and> LobbyMember.m_SteamID member
                         \<notin> LobbyMember.m_SteamID ` set (m_CurrentLobbyMembers world_lobby))
             (m_PendingLobbyMembers world_lobby))"
    by blast
  moreover from inst ok d1 d2
  have "distinct (map GetSteamID (fst (GetLobbyMembers decls1000 world_lobby)))"
    by blast
  ultimately show ?thesis
    using slots ended ids by blast
qed


text \<open>
  C6 as stated fails in its last part: the iteration does not compare the slots of one
  sequence with each other. A second lobby listing in which the members have moved up
  one slot leaves, after its first member line, the identifier 8 in the confirmed slots
  0 and 1, and the iteration yields that player twice.
\<close>

theorem GetLobbyMembers_duplicate_counterexample:
  "map LobbyMember.m_SteamID (m_CurrentLobbyMembers world_shifted) = [8, 8, 9]
   \<and> list_all (IsValid decls1000) (m_CurrentLobbyMembers world_shifted)
   \<and> m_PendingLobbyMembers world_shifted = []
   \<and> snd (GetLobbyMembers decls1000 world_shifted) = None
   \<and> map GetSteamID (fst (GetLobbyMembers decls1000 world_shifted)) = [8, 8, 9]
   \<and> \<not> distinct (map GetSteamID (fst (GetLobbyMembers decls1000 world_shifted)))"
  by code_simp


text \<open>
  C10. The iteration ends with the runtime error \<^verbatim>\<open>Missing player for lobby member!\<close>
  exactly when the player table has no record for one of the occupants it hands to
  \<open>GetPlayer\<close> (a valid confirmed slot, or a valid pending slot that is not suppressed as
  a duplicate of a confirmed one), and completes otherwise. It yields the players of
  the occupants before the first one without a record and nothing from there on: the
  occupant is neither skipped nor given a record, since every yielded record is an
  entry of the unchanged player table.
\<close>

theorem GetLobbyMembers_missing_player:
  "(snd (GetLobbyMembers X w) = Some (runtime_error ''Missing player for lobby member!'')
      \<longleftrightarrow> (\<exists>member\<in>set (confirmed_occupants X w @ pending_occupants X w).
             FindPlayer w (LobbyMember.m_SteamID member) = None))
   \<and> (snd (GetLobbyMembers X w) = None
        \<longleftrightarrow> (\<forall>member\<in>set (confirmed_occupants X w @ pending_occupants X w).
               FindPlayer w (LobbyMember.m_SteamID member) \<noteq> None))
   \<and> list_all2 (denotes w) (fst (GetLobbyMembers X w))
        (takeWhile (\<lambda>member. FindPlayer w (LobbyMember.m_SteamID member) \<noteq> None)
           (confirmed_occupants X w @ pending_occupants X w))
   \<and> (\<forall>p\<in>set (fst (GetLobbyMembers X w)). p \<in> snd ` set (m_CurrentPlayerData w))"
proof -
  note char = GetLobbyMembers_char [of w X]
  let ?all = "confirmed_occupants X w @ pending_occupants X w"
  have hr: "has_record w = (\<lambda>member. FindPlayer w (LobbyMember.m_SteamID member) \<noteq> None)"
    by (rule ext) (simp add: has_record_def)
  have yielded: "p \<in> snd ` set (m_CurrentPlayerData w)" if "p \<in> set (fst (GetLobbyMembers X w))" for p
  proof -
    from that char obtain m where "denotes w p m"
      by (metis in_set_conv_nth list_all2_conv_all_nth)
    then have "(LobbyMember.m_SteamID m, p) \<in> set (m_CurrentPlayerData w)"
      by (rule denotes_in_table)
    then show ?thesis
      by force
  qed
  from char have "snd (GetLobbyMembers X w) = Some (runtime_error ''Missing player for lobby member!'')
      \<longleftrightarrow> (\<exists>member\<in>set ?all. FindPlayer w (LobbyMember.m_SteamID member) = None)"
    by (auto simp: list_all_iff has_record_def missing_player_def)
  moreover from char have "snd (GetLobbyMembers X w) = None
        \<longleftrightarrow> (\<forall>member\<in>set ?all. FindPlayer w (LobbyMember.m_SteamID member) \<noteq> None)"
    by (auto simp: list_all_iff has_record_def)
  moreover from char have "list_all2 (denotes w) (fst (GetLobbyMembers X w))
        (takeWhile (\<lambda>member. FindPlayer w (LobbyMember.m_SteamID member) \<noteq> None) ?all)"
    by (simp add: hr)
  ultimately show ?thesis
    using yielded by blast
qed


theorem GetLobbyMembers_missing_player_witness:
  "map LobbyMember.m_SteamID (confirmed_occupants decls1000 world_orphan) = [7, 8]
   \<and> map fst (m_CurrentPlayerData world_orphan) = [7, 9]
   \<and> snd (GetLobbyMembers decls1000 world_orphan)
        = Some (runtime_error ''Missing player for lobby member!'')
   \<and> map GetSteamID (fst (GetLobbyMembers decls1000 world_orphan)) = [7]
   \<and> snd (GetLobbyMembers decls1000 world_lobby) = None"
proof -
  have occ: "map LobbyMember.m_SteamID (confirmed_occupants decls1000 world_orphan) = [7, 8]"
    by code_simp
  have tab: "map fst (m_CurrentPlayerData world_orphan) = [7, 9]"
    by code_simp
  have orphan: "\<exists>member\<in>set (confirmed_occupants decls1000 world_orphan
                              @ pending_occupants decls1000 world_orphan).
                  FindPlayer world_orphan (LobbyMember.m_SteamID member) = None"
    by code_simp
  have complete: "\<forall>member\<in>set (confirmed_occupants decls1000 world_lobby
                              @ pending_occupants decls1000 world_lobby).
                  FindPlayer world_lobby (LobbyMember.m_SteamID member) \<noteq> None"
    by code_simp
  have yields: "map GetSteamID (fst (GetLobbyMembers decls1000 world_orphan)) = [7]"
    by code_simp
  from GetLobbyMembers_missing_player [of decls1000 world_orphan] orphan
  have raised: "snd (GetLobbyMembers decls1000 world_orphan)
        = Some (runtime_error ''Missing player for lobby member!'')"
    by blast
  from GetLobbyMembers_missing_player [of decls1000 world_lobby] complete
  have "snd (GetLobbyMembers decls1000 world_lobby) = None"
    by blast
  with occ tab raised yields show ?thesis
    by blast
qed

section \<open>Enrichment batches\<close>

lemma Take100_loop_take:
  "Take100_loop xs acc = (if length acc \<ge> 100 then acc else acc @ take (100 - length acc) xs)"
proof (induction xs arbitrary: acc)
  case Nil
  then show ?case by simp
next
  case (Cons x xs)
  show ?case
  proof (cases "length acc \<ge> 100")
    case True
    then show ?thesis by simp
  next
    case False
    then obtain k where k: "100 - length acc = Suc k"
      by (cases "100 - length acc") auto
    then have "100 - length (acc @ [x]) = k"
      by simp
    with False k Cons.IH [of "acc @ [x]"] show ?thesis
      by (auto simp del: upt_Suc)
  qed
qed

lemma Take100_take: "Take100 collection = take 100 collection"
  by (simp add: Take100_def Take100_loop_take)

lemma fold_Queue: "fold Queue xs pending = set xs \<union> pending"
  by (induction xs arbitrary: pending) (auto simp: Queue_def)


text \<open>
  C7, as amended. \<open>SendRequest\<close> issues a request only when an HTTP client and an API key
  are configured. The batch of a request is the first 100 identifiers of the pending
  collection in its iteration order, and the whole collection when it holds 100 or
  fewer. The call leaves the collection as it was, so every identifier beyond those
  taken (and every one taken) is still pending afterwards.
\<close>

theorem SendRequest_batch:
  "snd (SendRequest st collection) = collection
   \<and> fst (SendRequest st collection)
       = (if HTTPClient st \<and> SteamAPIKey st \<noteq> [] then Some (Take100 collection) else None)
   \<and> Take100 collection = take 100 collection
   \<and> length (Take100 collection) \<le> 100
   \<and> (length collection \<le> 100 \<longrightarrow> Take100 collection = collection)
   \<and> Take100 collection @ drop 100 collection = collection
   \<and> (\<forall>sid\<in>set (drop 100 collection). sid \<in> set (snd (SendRequest st collection)))"
  by (auto simp: SendRequest_def Take100_take dest: in_set_dropD)

theorem SendRequest_batch_witness:
  "fst (SendRequest (lazy_settings\<lparr> SteamAPIKey := ''key'', HTTPClient := True \<rparr>) ids_upto_100)
     = Some [0..<100]
   \<and> snd (SendRequest (lazy_settings\<lparr> SteamAPIKey := ''key'', HTTPClient := True \<rparr>) ids_upto_100)
     = ids_upto_100
   \<and> 100 \<in> set (snd (SendRequest (lazy_settings\<lparr> SteamAPIKey := ''key'', HTTPClient := True \<rparr>)
                          ids_upto_100))
   \<and> Take100 [7, 8, 9] = [7, 8, 9]
   \<and> fst (SendRequest lazy_settings ids_upto_100) = None"
proof -
  let ?st = "lazy_settings\<lparr> SteamAPIKey := ''key'', HTTPClient := True \<rparr>"
  have ready: "HTTPClient ?st \<and> SteamAPIKey ?st \<noteq> []"
    by simp
  have unready: "\<not> (HTTPClient lazy_settings \<and> SteamAPIKey lazy_settings \<noteq> [])"
    by (simp add: lazy_settings_def)
  have beyond: "100 \<in> set (drop 100 ids_upto_100)"
    by (simp add: ids_upto_100_def del: upt_Suc)
  have few: "length [7, 8, 9 :: SteamID] \<le> 100"
    by simp
  note full = SendRequest_batch [of ?st ids_upto_100]
  from full ready have "fst (SendRequest ?st ids_upto_100) = Some (take 100 ids_upto_100)"
    by presburger
  then have a: "fst (SendRequest ?st ids_upto_100) = Some [0..<100]"
    by (simp add: ids_upto_100_def del: upt_Suc)
  from full have b: "snd (SendRequest ?st ids_upto_100) = ids_upto_100"
    by blast
  from full beyond have c: "100 \<in> set (snd (SendRequest ?st ids_upto_100))"
    by blast
  from SendRequest_batch [of lazy_settings "[7, 8, 9]"] few
  have d: "Take100 [7, 8, 9] = [7, 8, 9]"
    by blast
  from SendRequest_batch [of lazy_settings ids_upto_100] unready
  have e: "fst (SendRequest lazy_settings ids_upto_100) = None"
    by presburger
  from a b c d e show ?thesis
    by blast
qed


text \<open>
  C7 as stated fails where it says oldest-enqueued-first. \<open>Take100\<close> sees the pending
  collection only through its iteration, and the collection is a set keyed by
  identifier (line 833 erases from it by key), which does not iterate in the order of
  insertion. Enqueue the identifiers 100, 99, ..., 0 in this order: the pending set is
  the set of 0 to 100, and where it iterates in ascending order the batch is 0 to 99.
  The identifier enqueued first, 100, is among the 100 oldest and is not taken.
\<close>

theorem Take100_iteration_order_counterexample:
  "fold Queue (rev ids_upto_100) {} = set ids_upto_100
   \<and> distinct ids_upto_100
   \<and> hd (rev ids_upto_100) = 100
   \<and> Take100 ids_upto_100 = [0..<100]
   \<and> 100 \<notin> set (Take100 ids_upto_100)
   \<and> 100 \<in> set (take 100 (rev ids_upto_100))"
proof -
  have enqueued: "fold Queue (rev ids_upto_100) {} = set ids_upto_100"
    by (simp add: fold_Queue)
  have "distinct ids_upto_100"
    by (simp add: ids_upto_100_def del: upt_Suc)
  moreover have "hd (rev ids_upto_100) = 100"
    by (simp add: ids_upto_100_def hd_rev del: upt_Suc)
  moreover have batch: "Take100 ids_upto_100 = [0..<100]"
    by (simp add: Take100_take ids_upto_100_def del: upt_Suc)
  moreover have "100 \<notin> set (Take100 ids_upto_100)"
    by (simp add: batch del: upt_Suc)
  moreover have "take 100 (rev ids_upto_100) = rev [1..<101]"
    by (simp add: ids_upto_100_def take_rev del: upt_Suc)
  then have "100 \<in> set (take 100 (rev ids_upto_100))"
    by (simp del: upt_Suc)
  ultimately show ?thesis
    using enqueued by blast
qed

section \<open>Recent players\<close>

lemma GetRecentPlayersImpl_take:
  "GetRecentPlayersImpl std_sort table n = take n (std_sort recent_first (map snd table))"
  by (simp add: GetRecentPlayersImpl_def Let_def)


text \<open>
  C8, as amended. Whatever \<^verbatim>\<open>std::sort\<close> the program is built with, as long as it
  returns what the C++ standard promises, the query returns the first
  \<open>recentPlayerCount\<close> players of a rearrangement of the player table in descending
  order of last status update: the result is in descending order, it has
  \<open>recentPlayerCount\<close> entries or all players if there are fewer, and no player left out
  has a later status update than one returned. Nothing is promised about the relative
  order of players with equal timestamps.
\<close>

theorem GetRecentPlayersImpl_sorted:
  "std_sort_post recent_first (map snd table) (std_sort recent_first (map snd table)) \<longrightarrow>
     sorted_wrt (\<lambda>a b. GetLastStatusUpdateTime b \<le> GetLastStatusUpdateTime a)
       (GetRecentPlayersImpl std_sort table n)
     \<and> length (GetRecentPlayersImpl std_sort table n) = min n (length table)
     \<and> mset (GetRecentPlayersImpl std_sort table n) \<subseteq># mset (map snd table)
     \<and> (\<forall>a\<in>set (GetRecentPlayersImpl std_sort table n).
          \<forall>b\<in>set_mset (mset (map snd table) - mset (GetRecentPlayersImpl std_sort table n)).
            GetLastStatusUpdateTime b \<le> GetLastStatusUpdateTime a)"
proof
  let ?xs = "map snd table"
  let ?ys = "std_sort recent_first ?xs"
  let ?T = GetLastStatusUpdateTime
  assume "std_sort_post recent_first ?xs ?ys"
  then have perm: "mset ?ys = mset ?xs"
    and "sorted_wrt (\<lambda>a b. \<not> recent_first b a) ?ys"
    by (simp_all add: std_sort_post_def)
  then have sorted: "sorted_wrt (\<lambda>a b. ?T b \<le> ?T a) ?ys"
    by (simp add: recent_first_def not_less)
  have len: "length ?ys = length table"
    using perm by (metis length_map size_mset)
  have split: "?ys = take n ?ys @ drop n ?ys"
    by simp
  have "sorted_wrt (\<lambda>a b. ?T b \<le> ?T a) (take n ?ys @ drop n ?ys)"
    using sorted by simp
  then have cut: "\<forall>a\<in>set (take n ?ys). \<forall>b\<in>set (drop n ?ys). ?T b \<le> ?T a"
    by (simp only: sorted_wrt_append) blast
  have "mset ?xs = mset (take n ?ys) + mset (drop n ?ys)"
    using perm by (metis split mset_append)
  then have rest: "mset ?xs - mset (take n ?ys) = mset (drop n ?ys)"
    and sub: "mset (take n ?ys) \<subseteq># mset ?xs"
    by simp_all
  have "sorted_wrt (\<lambda>a b. ?T b \<le> ?T a) (take n ?ys)"
    using sorted by (rule sorted_wrt_take)
  with len sub cut rest
  show "sorted_wrt (\<lambda>a b. ?T b \<le> ?T a) (GetRecentPlayersImpl std_sort table n)
     \<and> length (GetRecentPlayersImpl std_sort table n) = min n (length table)
     \<and> mset (GetRecentPlayersImpl std_sort table n) \<subseteq># mset ?xs
     \<and> (\<forall>a\<in>set (GetRecentPlayersImpl std_sort table n).
          \<forall>b\<in>set_mset (mset ?xs - mset (GetRecentPlayersImpl std_sort table n)).
            ?T b \<le> ?T a)"
    by (simp add: GetRecentPlayersImpl_take min.commute)
qed

theorem GetRecentPlayersImpl_sorted_witness:
  "map GetSteamID (GetRecentPlayersImpl gnu_sort (m_CurrentPlayerData world_three) 2) = [9, 8]
   \<and> sorted_wrt (\<lambda>a b. GetLastStatusUpdateTime b \<le> GetLastStatusUpdateTime a)
       (GetRecentPlayersImpl gnu_sort (m_CurrentPlayerData world_three) 2)
   \<and> length (GetRecentPlayersImpl gnu_sort (m_CurrentPlayerData world_three) 2) = 2"
proof -
  have post: "std_sort_post recent_first (map snd (m_CurrentPlayerData world_three))
                (gnu_sort recent_first (map snd (m_CurrentPlayerData world_three)))"
    by code_simp
  have ids: "map GetSteamID (GetRecentPlayersImpl gnu_sort (m_CurrentPlayerData world_three) 2) = [9, 8]"
    by code_simp
  have len: "min 2 (length (m_CurrentPlayerData world_three)) = 2"
    by code_simp
  from GetRecentPlayersImpl_sorted
         [where std_sort = gnu_sort and table = "m_CurrentPlayerData world_three" and n = 2]
       post
  have "sorted_wrt (\<lambda>a b. GetLastStatusUpdateTime b \<le> GetLastStatusUpdateTime a)
       (GetRecentPlayersImpl gnu_sort (m_CurrentPlayerData world_three) 2)
     \<and> length (GetRecentPlayersImpl gnu_sort (m_CurrentPlayerData world_three) 2)
         = min 2 (length (m_CurrentPlayerData world_three))"
    by blast
  with ids len show ?thesis
    by simp
qed

text \<open>
  C8 as stated fails where it says stably: the source sorts with \<^verbatim>\<open>std::sort\<close>, not
  \<^verbatim>\<open>std::stable_sort\<close>. On a range of more than 16 elements the library's sort
  partitions, and its partition swaps elements that compare equal. Forty players with
  one timestamp, which a stable sort leaves in the order of the table, come back with
  the players of the table's positions 31, 22 and 23 in front: the first three of the
  query are not the first three of the table. The comparison never tells two of these
  players apart, so the rearrangement is one of positions; the same table iterated in
  the opposite order gives the players of the same three positions.
\<close>

theorem GetRecentPlayersImpl_unstable_counterexample:
  "map fst tied_table = [1..<41]
   \<and> list_all (\<lambda>(k, p). GetSteamID p = k \<and> GetLastStatusUpdateTime p = 60000) tied_table
   \<and> map GetSteamID (spec_recent_players tied_table 40) = [1..<41]
   \<and> std_sort_post recent_first (map snd tied_table) (gnu_sort recent_first (map snd tied_table))
   \<and> map GetSteamID (GetRecentPlayersImpl gnu_sort tied_table 40)
       = [31, 22, 23, 24, 25, 26, 27, 28, 29, 30, 21, 32, 33, 34, 35, 36, 37, 38, 39, 40,
          11, 2, 3, 4, 5, 6, 7, 8, 9, 10, 1, 12, 13, 14, 15, 16, 17, 18, 19, 20]
   \<and> map GetSteamID (GetRecentPlayersImpl gnu_sort tied_table 3) = [31, 22, 23]
   \<and> map GetSteamID (spec_recent_players tied_table 3) = [1, 2, 3]
   \<and> map GetSteamID (GetRecentPlayersImpl gnu_sort (rev tied_table) 3) = [10, 19, 18]
   \<and> map GetSteamID (spec_recent_players (rev tied_table) 3) = [40, 39, 38]"
  by code_simp

section \<open>Chunks of console output\<close>

lemma find_char_absent: "c \<notin> set xs \<Longrightarrow> find_char c xs = None"
  by (induction xs) auto

lemma find_char_first: "c \<notin> set l \<Longrightarrow> find_char c (l @ c # behind) = Some (length l)"
  by (induction l) auto

lemma find_from_absent: "c \<notin> set rest \<Longrightarrow> find_from (pre @ rest) c (length pre) = None"
  by (simp add: find_from_def find_char_absent)

lemma find_from_first:
  "c \<notin> set l \<Longrightarrow> find_from (pre @ l @ c # behind) c (length pre) = Some (length pre + length l)"
  by (simp add: find_from_def find_char_first)

lemma AddConsoleOutputChunk_loop_lines:
  "LF \<notin> set rest \<Longrightarrow> \<forall>l\<in>set ls. LF \<notin> set l \<Longrightarrow>
   AddConsoleOutputChunk_loop handler (pre @ concat (map (\<lambda>l. l @ [LF]) ls) @ rest) (length pre)
     = concat (map handler ls)"
proof (induction ls arbitrary: pre)
  case Nil
  then show ?case
    by (subst AddConsoleOutputChunk_loop.simps) (simp add: find_from_absent)
next
  case (Cons l ls)
  let ?behind = "concat (map (\<lambda>l. l @ [LF]) ls) @ rest"
  from Cons.prems have l: "LF \<notin> set l" and ls: "\<forall>l\<in>set ls. LF \<notin> set l"
    by simp_all
  have chunk: "pre @ concat (map (\<lambda>l. l @ [LF]) (l # ls)) @ rest = pre @ l @ LF # ?behind"
    by simp
  have found: "find_from (pre @ l @ LF # ?behind) LF (length pre) = Some (length pre + length l)"
    using l by (rule find_from_first)
  have line: "substr (pre @ l @ LF # ?behind) (length pre) (length pre + length l - length pre) = l"
    by (simp add: substr_def)
  have next_pos: "length pre + length l + 1 = length (pre @ l @ [LF])"
    by simp
  have again: "pre @ l @ LF # ?behind = (pre @ l @ [LF]) @ ?behind"
    by simp
  have "AddConsoleOutputChunk_loop handler (pre @ l @ LF # ?behind) (length pre)
          = handler l @ AddConsoleOutputChunk_loop handler (pre @ l @ LF # ?behind)
                          (length pre + length l + 1)"
    by (subst AddConsoleOutputChunk_loop.simps) (simp only: found line option.case)
  also have "AddConsoleOutputChunk_loop handler (pre @ l @ LF # ?behind) (length pre + length l + 1)
          = concat (map handler ls)"
    unfolding next_pos again using Cons.prems(1) ls by (rule Cons.IH)
  finally show ?case
    by simp
qed

lemma chunk_decomposition:
  "\<exists>ls rest. chunk = concat (map (\<lambda>l. l @ [LF]) ls) @ rest
      \<and> LF \<notin> set rest \<and> (\<forall>l\<in>set ls. LF \<notin> set l)"
proof (induction chunk)
  case Nil
  have "[] = concat (map (\<lambda>l. l @ [LF]) []) @ [] \<and> LF \<notin> set [] \<and> (\<forall>l\<in>set []. LF \<notin> set l)"
    by simp
  then show ?case by blast
next
  case (Cons c chunk)
  then obtain ls rest where d: "chunk = concat (map (\<lambda>l. l @ [LF]) ls) @ rest"
      "LF \<notin> set rest" "\<forall>l\<in>set ls. LF \<notin> set l"
    by blast
  show ?case
  proof (cases "c = LF")
    case True
    with d have "c # chunk = concat (map (\<lambda>l. l @ [LF]) ([] # ls)) @ rest
        \<and> LF \<notin> set rest \<and> (\<forall>l\<in>set ([] # ls). LF \<notin> set l)"
      by simp
    then show ?thesis by blast
  next
    case False
    show ?thesis
    proof (cases ls)
      case Nil
      with d False have "c # chunk = concat (map (\<lambda>l. l @ [LF]) []) @ (c # rest)
          \<and> LF \<notin> set (c # rest) \<and> (\<forall>l\<in>set []. LF \<notin> set l)"
        by simp
      then show ?thesis by blast
    next
      case (Cons l ls')
      with d False have "c # chunk = concat (map (\<lambda>l. l @ [LF]) ((c # l) # ls')) @ rest
          \<and> LF \<notin> set rest \<and> (\<forall>l\<in>set ((c # l) # ls'). LF \<notin> set l)"
        by simp
      then show ?thesis by blast
    qed
  qed
qed


text \<open>
  C9. Every chunk is a sequence of lines that hold no line feed, each followed by a
  line feed, and then a remainder that holds no line feed. The loop hands exactly
  these lines, in order, to \<^verbatim>\<open>AddConsoleOutputLine\<close> (so there is one such sequence
  only), and pushing the chunk sends the notifications of these lines and nothing
  else: each line goes to the parser and then to every listener, as parsed record if
  the parser accepts it and as raw text if not. The remainder after the last line feed
  is not passed on; a chunk with no line feed in it is all remainder and sends nothing.
\<close>

theorem AddConsoleOutputChunk_complete_lines:
  "(chunk = concat (map (\<lambda>l. l @ [LF]) ls) @ rest
      \<and> LF \<notin> set rest \<and> (\<forall>l\<in>set ls. LF \<notin> set l) \<longrightarrow>
      AddConsoleOutputChunk parse listeners chunk
        = concat (map (AddConsoleOutputLine parse listeners) ls)
      \<and> AddConsoleOutputChunk_loop (\<lambda>line. [line]) chunk 0 = ls)
   \<and> (LF \<notin> set chunk \<longrightarrow> AddConsoleOutputChunk parse listeners chunk = [])
   \<and> (\<exists>ls rest. chunk = concat (map (\<lambda>l. l @ [LF]) ls) @ rest
         \<and> LF \<notin> set rest \<and> (\<forall>l\<in>set ls. LF \<notin> set l))
   \<and> AddConsoleOutputLine parse listeners line
       = map (\<lambda>listener. case parse line of
                            Some parsed \<Rightarrow> Parsed listener parsed
                          | None \<Rightarrow> Unparsed listener line) listeners"
proof (intro conjI impI)
  assume d: "chunk = concat (map (\<lambda>l. l @ [LF]) ls) @ rest
      \<and> LF \<notin> set rest \<and> (\<forall>l\<in>set ls. LF \<notin> set l)"
  then have "AddConsoleOutputChunk_loop (AddConsoleOutputLine parse listeners)
               ([] @ concat (map (\<lambda>l. l @ [LF]) ls) @ rest) (length ([] :: string))
             = concat (map (AddConsoleOutputLine parse listeners) ls)"
    by (intro AddConsoleOutputChunk_loop_lines) simp_all
  with d show "AddConsoleOutputChunk parse listeners chunk
        = concat (map (AddConsoleOutputLine parse listeners) ls)"
    by (simp add: AddConsoleOutputChunk_def)
next
  assume d: "chunk = concat (map (\<lambda>l. l @ [LF]) ls) @ rest
      \<and> LF \<notin> set rest \<and> (\<forall>l\<in>set ls. LF \<notin> set l)"
  then have "AddConsoleOutputChunk_loop (\<lambda>line. [line])
               ([] @ concat (map (\<lambda>l. l @ [LF]) ls) @ rest) (length ([] :: string))
             = concat (map (\<lambda>line. [line]) ls)"
    by (intro AddConsoleOutputChunk_loop_lines) simp_all
  with d show "AddConsoleOutputChunk_loop (\<lambda>line. [line]) chunk 0 = ls"
    by simp
next
  assume "LF \<notin> set chunk"
  then have "AddConsoleOutputChunk_loop (AddConsoleOutputLine parse listeners)
               ([] @ concat (map (\<lambda>l. l @ [LF]) []) @ chunk) (length ([] :: string))
             = concat (map (AddConsoleOutputLine parse listeners) [])"
    by (intro AddConsoleOutputChunk_loop_lines) simp_all
  then show "AddConsoleOutputChunk parse listeners chunk = []"
    by (simp add: AddConsoleOutputChunk_def)
next
  show "\<exists>ls rest. chunk = concat (map (\<lambda>l. l @ [LF]) ls) @ rest
         \<and> LF \<notin> set rest \<and> (\<forall>l\<in>set ls. LF \<notin> set l)"
    by (rule chunk_decomposition)
next
  show "AddConsoleOutputLine parse listeners line
       = map (\<lambda>listener. case parse line of
                            Some parsed \<Rightarrow> Parsed listener parsed
                          | None \<Rightarrow> Unparsed listener line) listeners"
    by (simp add: AddConsoleOutputLine_def split: option.splits)
qed

theorem AddConsoleOutputChunk_complete_lines_witness:
  "AddConsoleOutputChunk parse_hello [10 :: nat, 20] (''hello'' @ [LF] @ ''wor'' @ [LF] @ ''ld'')
     = [Parsed 10 1, Parsed 20 1, Unparsed 10 ''wor'', Unparsed 20 ''wor'']
   \<and> AddConsoleOutputChunk_loop (\<lambda>line. [line]) (''hello'' @ [LF] @ ''wor'' @ [LF] @ ''ld'') 0
       = [''hello'', ''wor'']
   \<and> AddConsoleOutputChunk parse_hello [10 :: nat, 20] ''hello'' = []"
proof -
  have d: "''hello'' @ [LF] @ ''wor'' @ [LF] @ ''ld''
             = concat (map (\<lambda>l. l @ [LF]) [''hello'', ''wor'']) @ ''ld''
           \<and> LF \<notin> set ''ld'' \<and> (\<forall>l\<in>set [''hello'', ''wor'']. LF \<notin> set l)"
    by (simp add: LF_def)
  have none: "LF \<notin> set ''hello''"
    by (simp add: LF_def)
  from AddConsoleOutputChunk_complete_lines
         [where chunk = "''hello'' @ [LF] @ ''wor'' @ [LF] @ ''ld''"
            and ls = "[''hello'', ''wor'']" and rest = "''ld''"
            and parse = parse_hello and listeners = "[10 :: nat, 20]"] d
  have both: "AddConsoleOutputChunk parse_hello [10 :: nat, 20] (''hello'' @ [LF] @ ''wor'' @ [LF] @ ''ld'')
          = concat (map (AddConsoleOutputLine parse_hello [10, 20]) [''hello'', ''wor''])
      \<and> AddConsoleOutputChunk_loop (\<lambda>line. [line]) (''hello'' @ [LF] @ ''wor'' @ [LF] @ ''ld'') 0
          = [''hello'', ''wor'']"
    by blast
  then have a: "AddConsoleOutputChunk parse_hello [10 :: nat, 20] (''hello'' @ [LF] @ ''wor'' @ [LF] @ ''ld'')
     = [Parsed 10 1, Parsed 20 1, Unparsed 10 ''wor'', Unparsed 20 ''wor'']"
    by (simp add: AddConsoleOutputLine_def parse_hello_def)
  from AddConsoleOutputChunk_complete_lines
         [where chunk = "''hello''" and parse = parse_hello and listeners = "[10 :: nat, 20]"] none
  have "AddConsoleOutputChunk parse_hello [10 :: nat, 20] ''hello'' = []"
    by blast
  with a both show ?thesis
    by blast
qed

end
